theory Spec2Isabelle
  imports
    Main
    "HOL-Library.Sublist"
    "HOL-Library.Multiset"
    "HOL-Library.Char_ord"
    "HOL-Library.List_Lexorder"
begin

section \<open>JavaScript values and records\<close>

text \<open>
  A ticket (more generally: a row of the data grid) is a plain JavaScript object, made
  by an object literal or by \<open>JSON.parse\<close>. Its own properties are kept as an
  association list from property name to value. Numbers are integers: the development
  speaks for the code on the safe integers (absolute value at most \<open>2^53 - 1\<close>, which a
  double holds exactly) and has no NaN, no infinity and no fraction. Strings are
  sequences of code units below 256. A nested plain object (such as \<open>attachmentData\<close>)
  is a \<open>JObj\<close> with its own members, and \<open>JFun name\<close> is the built-in function of that
  name.
\<close>

datatype jsval =
    JUndefined
  | JNull
  | JBool bool
  | JNum int
  | JStr string
  | JObj "(string \<times> jsval) list"
  | JFun string

type_synonym ticket = "(string \<times> jsval) list"

text \<open>
  The read \<open>ticket[column]\<close> looks for an own property first and then along the
  prototype chain, which for a plain object is \<open>Object.prototype\<close>. The members of
  \<open>Object.prototype\<close> are built-in functions, and its accessor \<open>__proto__\<close> yields
  \<open>Object.prototype\<close> itself, an object whose string form is \<open>[object Object]\<close>
  (kept here as an object without members). A name found in neither place reads as
  \<open>undefined\<close>.
\<close>

definition Object_prototype :: "(string \<times> jsval) list" where
  "Object_prototype =
     [(''constructor'', JFun ''Object''),
      (''__defineGetter__'', JFun ''__defineGetter__''),
      (''__defineSetter__'', JFun ''__defineSetter__''),
      (''hasOwnProperty'', JFun ''hasOwnProperty''),
      (''__lookupGetter__'', JFun ''__lookupGetter__''),
      (''__lookupSetter__'', JFun ''__lookupSetter__''),
      (''isPrototypeOf'', JFun ''isPrototypeOf''),
      (''propertyIsEnumerable'', JFun ''propertyIsEnumerable''),
      (''toString'', JFun ''toString''),
      (''valueOf'', JFun ''valueOf''),
      (''__proto__'', JObj []),
      (''toLocaleString'', JFun ''toLocaleString'')]"

definition field :: "ticket \<Rightarrow> string \<Rightarrow> jsval" where
  "field t c =
     (case map_of t c of
        Some v \<Rightarrow> v
      | None \<Rightarrow> (case map_of Object_prototype c of Some v \<Rightarrow> v | None \<Rightarrow> JUndefined))"

text \<open>Truthiness, and the idiom \<open>v || ''\<close>.\<close>

fun truthy :: "jsval \<Rightarrow> bool" where
  "truthy JUndefined = False"
| "truthy JNull = False"
| "truthy (JBool b) = b"
| "truthy (JNum n) = (n \<noteq> 0)"
| "truthy (JStr s) = (s \<noteq> [])"
| "truthy (JObj _) = True"
| "truthy (JFun _) = True"

definition or_empty :: "jsval \<Rightarrow> jsval" where
  "or_empty v = (if truthy v then v else JStr [])"

text \<open>Decimal rendering of a number, as \<open>Number.prototype.toString\<close> gives for integers.\<close>

definition digit_char :: "nat \<Rightarrow> char" where
  "digit_char d = ''0123456789'' ! d"

fun nat_to_dec :: "nat \<Rightarrow> string" where
  "nat_to_dec n =
     (if n < 10 then [digit_char n] else nat_to_dec (n div 10) @ [digit_char (n mod 10)])"

declare nat_to_dec.simps [simp del]

definition int_to_dec :: "int \<Rightarrow> string" where
  "int_to_dec i = (if i < 0 then CHR ''-'' # nat_to_dec (nat (- i)) else nat_to_dec (nat i))"

definition MAX_SAFE_INTEGER :: int where
  "MAX_SAFE_INTEGER = 9007199254740991"

definition safe_integer :: "int \<Rightarrow> bool" where
  "safe_integer n \<longleftrightarrow> - MAX_SAFE_INTEGER \<le> n \<and> n \<le> MAX_SAFE_INTEGER"

text \<open>
  \<open>toString\<close> is the result of the method call \<open>v.toString()\<close>. On \<open>null\<close> and
  \<open>undefined\<close> the call would raise a TypeError; the source only calls it on
  \<open>v || ''\<close>, which is never one of the two (lemma \<open>or_empty_defined\<close> below). A number
  gives its decimal numeral, which is right for the safe integers (the exponent form
  begins at \<open>1e21\<close>). An object gives what the inherited \<open>Object.prototype.toString\<close>
  returns; an object that has a member \<open>toString\<close> of its own would run that member
  instead, or raise when the member is not a function. A built-in function gives its
  source text as V8 prints it. The values on which \<open>toString\<close> is what the source
  computes are the \<open>coercible\<close> ones.
\<close>

fun toString :: "jsval \<Rightarrow> string" where
  "toString JUndefined = ''undefined''"
| "toString JNull = ''null''"
| "toString (JBool b) = (if b then ''true'' else ''false'')"
| "toString (JNum n) = int_to_dec n"
| "toString (JStr s) = s"
| "toString (JObj _) = ''[object Object]''"
| "toString (JFun name) = ''function '' @ name @ ''() { [native code] }''"

fun coercible :: "jsval \<Rightarrow> bool" where
  "coercible (JNum n) = safe_integer n"
| "coercible (JObj members) = (map_of members ''toString'' = None)"
| "coercible v = True"

text \<open>
  \<open>toLowerCase\<close> on code units below 256: the letters A to Z and the Latin-1 capitals
  (0xC0 to 0xDE without the multiplication sign 0xD7) move up by 32.
\<close>

definition lower_char :: "char \<Rightarrow> char" where
  "lower_char c =
     (let n = (of_char c :: nat)
      in if (65 \<le> n \<and> n \<le> 90) \<or> (192 \<le> n \<and> n \<le> 222 \<and> n \<noteq> 215)
         then char_of (n + 32) else c)"

definition toLowerCase :: "string \<Rightarrow> string" where
  "toLowerCase s = map lower_char s"

text \<open>The string predicates of the filter relations.\<close>

definition startsWith :: "string \<Rightarrow> string \<Rightarrow> bool" where
  "startsWith s p = (take (length p) s = p)"

definition endsWith :: "string \<Rightarrow> string \<Rightarrow> bool" where
  "endsWith s p = (length p \<le> length s \<and> drop (length s - length p) s = p)"

fun str_includes :: "string \<Rightarrow> string \<Rightarrow> bool" where
  "str_includes [] p = (p = [])"
| "str_includes (c # cs) p = (startsWith (c # cs) p \<or> str_includes cs p)"

subsection \<open>Relational comparison\<close>

text \<open>
  \<open>a < b\<close> on JavaScript values: both operands are made primitive; two strings are
  compared by code units (a proper prefix is smaller); otherwise both are converted to
  numbers and compared, and the comparison is false as soon as one of them is NaN
  (\<open>None\<close> below).

  An object or a function becomes the string that its inherited \<open>toString\<close> returns
  (the inherited \<open>valueOf\<close> returns the object itself and is passed over). An object
  with a member \<open>valueOf\<close> or \<open>toString\<close> of its own would run that member, or raise
  when neither yields a primitive: the values on which \<open>toPrimitive\<close> is what the
  source computes are the \<open>orderable\<close> ones.

  A string converts to a number when, once trimmed of white space, it is empty (zero)
  or an optionally signed run of decimal digits, and to NaN otherwise. JavaScript also
  reads numerals with a fraction, an exponent or a radix prefix and the word
  \<open>Infinity\<close>, which denote numbers that the integers do not have. So
  \<open>stringToNumber\<close> is what the source computes on the strings that
  \<open>converts_as_modelled\<close> accepts: the trimmed text has a character that no numeral
  contains (the string is NaN for JavaScript too), or it is the numeral of a safe
  integer.
\<close>

fun toPrimitive :: "jsval \<Rightarrow> jsval" where
  "toPrimitive (JObj fs) = JStr ''[object Object]''"
| "toPrimitive (JFun name) = JStr (toString (JFun name))"
| "toPrimitive v = v"

fun orderable :: "jsval \<Rightarrow> bool" where
  "orderable (JNum n) = safe_integer n"
| "orderable (JObj members) =
     (map_of members ''toString'' = None \<and> map_of members ''valueOf'' = None)"
| "orderable v = True"

definition is_ws :: "char \<Rightarrow> bool" where
  "is_ws c = ((of_char c :: nat) \<in> {9, 10, 11, 12, 13, 32, 160})"

definition is_digit :: "char \<Rightarrow> bool" where
  "is_digit c = (48 \<le> (of_char c :: nat) \<and> (of_char c :: nat) \<le> 57)"

definition trim :: "string \<Rightarrow> string" where
  "trim s = rev (dropWhile is_ws (rev (dropWhile is_ws s)))"

definition digits_value :: "string \<Rightarrow> nat" where
  "digits_value ds = foldl (\<lambda>a d. 10 * a + (of_char d - 48)) 0 ds"

definition unsigned_dec :: "string \<Rightarrow> int option" where
  "unsigned_dec ds = (if ds \<noteq> [] \<and> list_all is_digit ds then Some (int (digits_value ds)) else None)"

definition stringToNumber :: "string \<Rightarrow> int option" where
  "stringToNumber s =
     (case trim s of
        [] \<Rightarrow> Some 0
      | c # cs \<Rightarrow>
          if c = CHR ''-'' then map_option uminus (unsigned_dec cs)
          else if c = CHR ''+'' then unsigned_dec cs
          else unsigned_dec (c # cs))"

definition numeral_chars :: string where
  "numeral_chars = ''0123456789+-.abcdefABCDEFInityoOxX''"

definition converts_as_modelled :: "string \<Rightarrow> bool" where
  "converts_as_modelled s \<longleftrightarrow>
     list_ex (\<lambda>c. c \<notin> set numeral_chars) (trim s) \<or>
     (case stringToNumber s of Some n \<Rightarrow> safe_integer n | None \<Rightarrow> False)"

fun toNumber :: "jsval \<Rightarrow> int option" where
  "toNumber JUndefined = None"
| "toNumber JNull = Some 0"
| "toNumber (JBool b) = Some (if b then 1 else 0)"
| "toNumber (JNum n) = Some n"
| "toNumber (JStr s) = stringToNumber s"
| "toNumber (JObj fs) = stringToNumber ''[object Object]''"
| "toNumber (JFun name) = stringToNumber (toString (JFun name))"

definition prim_lt :: "jsval \<Rightarrow> jsval \<Rightarrow> bool" where
  "prim_lt pa pb =
     (case (pa, pb) of
        (JStr s, JStr t) \<Rightarrow> s < t
      | _ \<Rightarrow> (case (toNumber pa, toNumber pb) of
                (Some x, Some y) \<Rightarrow> x < y
              | _ \<Rightarrow> False))"

definition js_lt :: "jsval \<Rightarrow> jsval \<Rightarrow> bool" where
  "js_lt a b = prim_lt (toPrimitive a) (toPrimitive b)"

definition js_gt :: "jsval \<Rightarrow> jsval \<Rightarrow> bool" where
  "js_gt a b = js_lt b a"

section \<open>Rule model\<close>

text \<open>
  A filter rule is \<open>{ column, relation, value }\<close>, a sort rule \<open>{ column, order }\<close>.
  The relation and the order are the strings the source compares against; the rule
  value is whatever the caller put there (the rule editors put a string).
\<close>

record filter_rule =
  column :: string
  relation :: string
  fvalue :: jsval

record sort_rule =
  sort_column :: string
  sort_order :: string

section \<open>Query evaluator: \<open>processTickets\<close> and \<open>processData\<close>\<close>

text \<open>
  The callback of \<open>filters.every\<close>: both sides go through \<open>(v || '').toString().toLowerCase()\<close>,
  then the \<open>switch\<close> on the relation decides; its \<open>default\<close> branch returns \<open>true\<close>.
\<close>

definition coerce :: "jsval \<Rightarrow> string" where
  "coerce v = toLowerCase (toString (or_empty v))"

definition matchesFilter :: "ticket \<Rightarrow> filter_rule \<Rightarrow> bool" where
  "matchesFilter t f =
     (let ticketValue = coerce (field t (column f));
          filterValue = coerce (fvalue f)
      in if relation f = ''equals'' then ticketValue = filterValue
         else if relation f = ''contains'' then str_includes ticketValue filterValue
         else if relation f = ''startsWith'' then startsWith ticketValue filterValue
         else if relation f = ''endsWith'' then endsWith ticketValue filterValue
         else True)"

text \<open>
  The comparator handed to \<open>sort\<close>: the \<open>for\<close> loop over the sorters returns at the first
  rule whose comparison is not 0, negated unless the rule's order is \<open>'asc'\<close>.
\<close>

definition comparison :: "jsval \<Rightarrow> jsval \<Rightarrow> int" where
  "comparison valA valB = (if js_gt valA valB then 1 else if js_lt valA valB then - 1 else 0)"

fun compareBy :: "sort_rule list \<Rightarrow> ticket \<Rightarrow> ticket \<Rightarrow> int" where
  "compareBy [] a b = 0"
| "compareBy (s # ss) a b =
     (let valA = field a (sort_column s);
          valB = field b (sort_column s)
      in if comparison valA valB \<noteq> 0
         then (if sort_order s = ''asc'' then comparison valA valB else - comparison valA valB)
         else compareBy ss a b)"

text \<open>
  \<open>Array.prototype.sort\<close> with a comparator is a stable sort. For a comparator that is
  a consistent ordering the result is the unique stable arrangement, whatever the
  engine's algorithm; for other comparators the language leaves the order to the
  engine, and the model fixes insertion from the right (an element is put in front of
  the first element it does not compare greater than). What is stated below about such
  comparators does not depend on that choice: the result is a rearrangement of the
  input, and two sorts of the same records with comparators that agree on them give
  the same result.
\<close>

fun insert_by :: "('a \<Rightarrow> 'a \<Rightarrow> int) \<Rightarrow> 'a \<Rightarrow> 'a list \<Rightarrow> 'a list" where
  "insert_by cmp x [] = [x]"
| "insert_by cmp x (y # ys) = (if cmp x y \<le> 0 then x # y # ys else y # insert_by cmp x ys)"

definition sort_by :: "('a \<Rightarrow> 'a \<Rightarrow> int) \<Rightarrow> 'a list \<Rightarrow> 'a list" where
  "sort_by cmp xs = foldr (insert_by cmp) xs []"

definition processTickets :: "ticket list \<Rightarrow> filter_rule list \<Rightarrow> sort_rule list \<Rightarrow> ticket list" where
  "processTickets tickets filters sorters =
     (let processedTickets = tickets;
          processedTickets =
            (if length filters > 0
             then filter (\<lambda>ticket. list_all (matchesFilter ticket) filters) processedTickets
             else processedTickets)
      in sort_by (compareBy sorters) processedTickets)"

text \<open>\<open>processData\<close> of the older table component has the same body.\<close>

definition processData :: "ticket list \<Rightarrow> filter_rule list \<Rightarrow> sort_rule list \<Rightarrow> ticket list" where
  "processData data filters sorters =
     (let processedData = data;
          processedData =
            (if length filters > 0
             then filter (\<lambda>item. list_all (matchesFilter item) filters) processedData
             else processedData)
      in sort_by (compareBy sorters) processedData)"

section \<open>The filter contract in the words of the specification\<close>


definition holds_with ::
  "(ticket \<Rightarrow> string \<Rightarrow> jsval) \<Rightarrow> (jsval \<Rightarrow> string) \<Rightarrow> ticket \<Rightarrow> filter_rule \<Rightarrow> bool" where
  "holds_with read str t f =
     (let a = toLowerCase (str (read t (column f)));
          b = toLowerCase (str (fvalue f))
      in (relation f = ''equals'' \<longrightarrow> a = b)
       \<and> (relation f = ''contains'' \<longrightarrow> sublist b a)
       \<and> (relation f = ''startsWith'' \<longrightarrow> prefix b a)
       \<and> (relation f = ''endsWith'' \<longrightarrow> suffix b a))"

definition own_field :: "ticket \<Rightarrow> string \<Rightarrow> jsval" where
  "own_field t c = (case map_of t c of Some v \<Rightarrow> v | None \<Rightarrow> JUndefined)"

definition spec_string :: "jsval \<Rightarrow> string" where
  "spec_string v = (if v = JUndefined then [] else toString v)"

definition falsy_empty_string :: "jsval \<Rightarrow> string" where
  "falsy_empty_string v = (if v \<in> {JUndefined, JNull, JBool False, JNum 0, JStr []} then [] else toString v)"

definition spec_filter :: "ticket list \<Rightarrow> filter_rule list \<Rightarrow> ticket list" where
  "spec_filter records rules = filter (\<lambda>r. list_all (holds_with own_field spec_string r) rules) records"

text \<open>
  The values that the coercion of the filter meets are those on which \<open>toString\<close> is
  what the source computes: the value of every rule, and the field that every rule
  names in every record.
\<close>

definition filter_values_modelled :: "ticket list \<Rightarrow> filter_rule list \<Rightarrow> bool" where
  "filter_values_modelled tickets filters \<longleftrightarrow>
     (\<forall>f\<in>set filters. coercible (fvalue f) \<and> (\<forall>t\<in>set tickets. coercible (field t (column f))))"

section \<open>Arrays in a store\<close>

text \<open>
  To speak about mutation, arrays live in a store: the array at address \<open>r\<close> is
  \<open>h ! r\<close>, and a new array is allocated at the end. \<open>processTickets_heap\<close> is
  \<open>processTickets\<close> with its array operations spelt out: the spread \<open>[...tickets]\<close>
  and \<open>filter\<close> allocate new arrays, \<open>sort\<close> sorts the array it is called on in place.
\<close>

type_synonym 'a heap = "'a list list"

definition alloc :: "'a list \<Rightarrow> 'a heap \<Rightarrow> nat \<times> 'a heap" where
  "alloc xs h = (length h, h @ [xs])"

definition processTickets_heap ::
  "ticket heap \<Rightarrow> nat \<Rightarrow> filter_rule list \<Rightarrow> sort_rule list \<Rightarrow> nat \<times> ticket heap" where
  "processTickets_heap h tickets filters sorters =
     (let (processedTickets, h1) = alloc (h ! tickets) h;
          (processedTickets, h2) =
            (if length filters > 0
             then alloc (filter (\<lambda>ticket. list_all (matchesFilter ticket) filters) (h1 ! processedTickets)) h1
             else (processedTickets, h1));
          h3 = h2[processedTickets := sort_by (compareBy sorters) (h2 ! processedTickets)]
      in (processedTickets, h3))"

section \<open>The sort contract\<close>

text \<open>
  A comparator is a consistent ordering of a set of records when swapping the arguments
  negates it and "not greater" is transitive. This is the case, for one, when the
  records are \<open>sortable\<close> by the sort rules: every sort column holds a string in every
  record, or an integer in every record.
\<close>

definition consistent_on :: "('a \<Rightarrow> 'a \<Rightarrow> int) \<Rightarrow> 'a set \<Rightarrow> bool" where
  "consistent_on cmp S \<longleftrightarrow>
     (\<forall>a\<in>S. \<forall>b\<in>S. cmp b a = - cmp a b) \<and>
     (\<forall>a\<in>S. \<forall>b\<in>S. \<forall>c\<in>S. cmp a b \<le> 0 \<and> cmp b c \<le> 0 \<longrightarrow> cmp a c \<le> 0)"

fun is_str :: "jsval \<Rightarrow> bool" where
  "is_str (JStr s) = True"
| "is_str v = False"

fun is_num :: "jsval \<Rightarrow> bool" where
  "is_num (JNum n) = True"
| "is_num v = False"

definition sortable :: "ticket list \<Rightarrow> sort_rule list \<Rightarrow> bool" where
  "sortable tickets sorters \<longleftrightarrow>
     (\<forall>s\<in>set sorters.
        (\<forall>t\<in>set tickets. is_str (field t (sort_column s))) \<or>
        (\<forall>t\<in>set tickets. is_num (field t (sort_column s))))"

text \<open>
  The values that the comparator meets are those on which the relational comparison
  is what the source computes: every sort column holds \<open>orderable\<close> values, and either
  all of them compare as strings (no conversion to a number takes place) or every
  string among them converts as modelled.
\<close>

fun textual :: "jsval \<Rightarrow> bool" where
  "textual (JStr s) = True"
| "textual (JObj members) = True"
| "textual (JFun name) = True"
| "textual v = False"

definition sort_values_modelled :: "ticket list \<Rightarrow> sort_rule list \<Rightarrow> bool" where
  "sort_values_modelled tickets sorters \<longleftrightarrow>
     (\<forall>s\<in>set sorters.
        (\<forall>t\<in>set tickets. orderable (field t (sort_column s))) \<and>
        ((\<forall>t\<in>set tickets. textual (field t (sort_column s))) \<or>
         (\<forall>t\<in>set tickets. case toPrimitive (field t (sort_column s)) of
                               JStr str \<Rightarrow> converts_as_modelled str
                             | _ \<Rightarrow> True)))"

text \<open>
  The two halves of "ordered by the tie-break chain": no record is followed by one that
  the chain puts strictly before it, and the records that tie with a given record under
  all rules appear in the order they had in the input.
\<close>

definition chain_sorted :: "sort_rule list \<Rightarrow> ticket list \<Rightarrow> bool" where
  "chain_sorted sorters ys = sorted_wrt (\<lambda>a b. compareBy sorters a b \<le> 0) ys"

definition keeps_ties :: "sort_rule list \<Rightarrow> ticket list \<Rightarrow> ticket list \<Rightarrow> bool" where
  "keeps_ties sorters xs ys =
     list_all (\<lambda>a. filter (\<lambda>b. compareBy sorters a b = 0) ys
                  = filter (\<lambda>b. compareBy sorters a b = 0) xs) xs"

text \<open>The rule that decides between two records: the first one whose comparison is not 0.\<close>

definition deciding_rule :: "sort_rule list \<Rightarrow> ticket \<Rightarrow> ticket \<Rightarrow> sort_rule option" where
  "deciding_rule sorters a b =
     find (\<lambda>s. comparison (field a (sort_column s)) (field b (sort_column s)) \<noteq> 0) sorters"



section \<open>The older table component: \<open>fetchData\<close>\<close>

text \<open>
  \<open>slice\<close> is \<open>Array.prototype.slice\<close> on integer arguments: a negative index counts
  from the end, and both indices are clamped to the array. \<open>ceil_div a b\<close> is
  \<open>Math.ceil(a / b)\<close> for integers \<open>a\<close> and \<open>b \<noteq> 0\<close> (for \<open>b = 0\<close> the source computes
  an infinity or NaN, which the integer model does not have).
\<close>

definition slice :: "'a list \<Rightarrow> int \<Rightarrow> int \<Rightarrow> 'a list" where
  "slice xs start stop =
     (let len = int (length xs);
          k = (if start < 0 then max (len + start) 0 else min start len);
          final = (if stop < 0 then max (len + stop) 0 else min stop len)
      in take (nat (final - k)) (drop (nat k) xs))"

definition ceil_div :: "int \<Rightarrow> int \<Rightarrow> int" where
  "ceil_div a b = - ((- a) div b)"

record table_settings =
  s_data :: "ticket list"
  s_dataSource :: "string option"
  s_serverSide :: bool
  s_filters :: "filter_rule list"
  s_sorters :: "sort_rule list"
  s_pagination_enabled :: bool
  s_pageSize :: int

record table_state =
  displayedData :: "ticket list"
  t_totalCount :: int
  t_totalPages :: int
  t_currentPage :: int

text \<open>
  The answer of the OData service to the request of the server-side branch: the parsed
  body with its \<open>value\<close> and \<open>@odata.count\<close> members (each possibly missing), or a
  failure (network error, status not ok, body not JSON).
\<close>

datatype odata_outcome =
    ODataBody "ticket list option" "int option"
  | ODataFailure

definition fetchData :: "table_settings \<Rightarrow> odata_outcome \<Rightarrow> table_state \<Rightarrow> table_state" where
  "fetchData settings response state =
     (if s_serverSide settings \<and> (s_dataSource settings = None \<or> s_dataSource settings = Some [])
      then state
      else
        let state1 =
          (if s_serverSide settings then
             (case response of
                ODataBody v cnt \<Rightarrow>
                  let shown = (case v of None \<Rightarrow> [] | Some rows \<Rightarrow> rows)
                  in state\<lparr>displayedData := shown,
                           t_totalCount := (case cnt of
                                              None \<Rightarrow> int (length shown)
                                            | Some n \<Rightarrow> if n = 0 then int (length shown) else n)\<rparr>
              | ODataFailure \<Rightarrow> state\<lparr>displayedData := [], t_totalCount := 0\<rparr>)
           else
             let fullProcessed = processData (s_data settings) (s_filters settings) (s_sorters settings);
                 state0 = state\<lparr>t_totalCount := int (length fullProcessed)\<rparr>
             in if s_pagination_enabled settings
                then let start = (t_currentPage state0 - 1) * s_pageSize settings
                     in state0\<lparr>displayedData := slice fullProcessed start (start + s_pageSize settings)\<rparr>
                else state0\<lparr>displayedData := fullProcessed\<rparr>)
        in state1\<lparr>t_totalPages :=
                    (if s_pagination_enabled settings
                     then ceil_div (t_totalCount state1) (s_pageSize settings) else 1)\<rparr>)"

section \<open>The grid engine of \<open>table.js\<close>\<close>

text \<open>
  The engine's filter rules carry an \<open>operator\<close>, its sort rules are those of the rule
  model. The data source is a function from the page request to its outcome: a page
  result whose \<open>data\<close> may fail to be an array and whose \<open>totalCount\<close> may be missing,
  a resolution to \<open>null\<close> or \<open>undefined\<close>, a rejected promise, or an exception thrown by
  the call itself.
\<close>

record grid_filter =
  gf_column :: string
  operator :: string
  gf_value :: string

record page_request =
  page :: int
  rq_pageSize :: int
  rq_sorters :: "sort_rule list"
  rq_filters :: "grid_filter list"

datatype page_result = PageResult "ticket list option" "int option"

datatype js_error =
    TypeError | ProviderError | SyntaxError | LibraryError | EmptyDecryption
  | QuotaExceededError

datatype provider_outcome =
    Resolves page_result
  | ResolvesNullish
  | Rejects
  | Throws

record grid_settings =
  dataSource :: "page_request \<Rightarrow> provider_outcome"
  pagination_enabled :: bool
  pageSize :: int

record grid_state =
  data :: "ticket list"
  totalCount :: int
  totalPages :: int
  currentPage :: int
  state_filters :: "grid_filter list"
  state_sorters :: "sort_rule list"
  selectedRows :: "jsval list"

definition initial_state :: grid_state where
  "initial_state = \<lparr>data = [], totalCount = 0, totalPages = 1, currentPage = 1,
                     state_filters = [], state_sorters = [], selectedRows = []\<rparr>"

definition try_catch :: "js_error + 'a \<Rightarrow> (js_error \<Rightarrow> js_error + 'a) \<Rightarrow> js_error + 'a" where
  "try_catch body handler = (case body of Inl e \<Rightarrow> handler e | Inr v \<Rightarrow> Inr v)"

text \<open>
  \<open>await settings.dataSource(...)\<close> followed by the destructuring of the result: every
  outcome but a resolved page result raises inside the \<open>try\<close> block.
\<close>

definition await_dataSource :: "provider_outcome \<Rightarrow> js_error + page_result" where
  "await_dataSource outcome =
     (case outcome of
        Resolves r \<Rightarrow> Inr r
      | ResolvesNullish \<Rightarrow> Inl TypeError
      | Rejects \<Rightarrow> Inl ProviderError
      | Throws \<Rightarrow> Inl ProviderError)"

definition fetchServerData :: "grid_settings \<Rightarrow> grid_state \<Rightarrow> js_error + grid_state" where
  "fetchServerData settings state =
     try_catch
       (case await_dataSource
               (dataSource settings
                  \<lparr>page = currentPage state, rq_pageSize = pageSize settings,
                   rq_sorters = state_sorters state, rq_filters = state_filters state\<rparr>) of
          Inl e \<Rightarrow> Inl e
        | Inr (PageResult d cnt) \<Rightarrow>
            let state1 = state\<lparr>data := (case d of Some rows \<Rightarrow> rows | None \<Rightarrow> []),
                                totalCount := (case cnt of Some n \<Rightarrow> n | None \<Rightarrow> 0)\<rparr>;
                state2 = state1\<lparr>totalPages :=
                           (if pagination_enabled settings
                            then ceil_div (totalCount state1) (pageSize settings) else 1)\<rparr>
            in Inr (state2\<lparr>currentPage :=
                        max 1 (min (currentPage state2)
                                   (if totalPages state2 = 0 then 1 else totalPages state2))\<rparr>))
       (\<lambda>error. Inr (state\<lparr>data := [], totalCount := 0\<rparr>))"

text \<open>
  \<open>update\<close> writes the markup of the table body (and of the pagination bar, which is
  computed from the numbers of the state and cannot fail). The body is the empty
  message when there are no rows, and otherwise one row of markup for each record. The
  cells of a row come from the column definitions of the configuration, whose \<open>render\<close>
  callbacks are code of the caller: \<open>renderRow\<close> gives the markup of a row, or the
  exception raised while building it. \<open>refresh\<close> awaits the fetch and then updates;
  the state is the one the fetch left, whether or not the update raises.
\<close>

record rendering =
  emptyMessage :: string
  renderRow :: "ticket \<Rightarrow> js_error + string"

datatype body = EmptyMessage string | Rows "string list"

fun render_rows :: "(ticket \<Rightarrow> js_error + string) \<Rightarrow> ticket list \<Rightarrow> js_error + string list" where
  "render_rows render [] = Inr []"
| "render_rows render (row # rows) =
     (case render row of
        Inl e \<Rightarrow> Inl e
      | Inr markup \<Rightarrow>
          (case render_rows render rows of
             Inl e \<Rightarrow> Inl e
           | Inr rest \<Rightarrow> Inr (markup # rest)))"

definition renderBody :: "rendering \<Rightarrow> grid_state \<Rightarrow> js_error + body" where
  "renderBody r state =
     (if length (data state) = 0 then Inr (EmptyMessage (emptyMessage r))
      else map_sum id Rows (render_rows (renderRow r) (data state)))"

definition update :: "rendering \<Rightarrow> grid_state \<Rightarrow> js_error + body" where
  "update r state = renderBody r state"

definition refresh :: "grid_settings \<Rightarrow> rendering \<Rightarrow> grid_state \<Rightarrow> grid_state \<times> (js_error + body)" where
  "refresh settings r state =
     (case fetchServerData settings state of
        Inl e \<Rightarrow> (state, Inl e)
      | Inr state' \<Rightarrow> (state', update r state'))"

definition grid_invariant :: "grid_settings \<Rightarrow> grid_state \<Rightarrow> bool" where
  "grid_invariant settings state \<longleftrightarrow>
     1 \<le> currentPage state \<and> currentPage state \<le> max 1 (totalPages state) \<and>
     totalPages state =
       (if pagination_enabled settings then ceil_div (totalCount state) (pageSize settings) else 1)"






text \<open>
  \<open>getState\<close> with the objects of the state in a store. The state object holds its
  numbers by value and its arrays and its set by address; the object spread copies every
  slot, value or address alike, and \<open>new Set(state.selectedRows)\<close> allocates a set with
  the same members. \<open>view\<close> reads a state object through the store.
\<close>

datatype obj =
    ArrTickets "ticket list"
  | ArrFilters "grid_filter list"
  | ArrSorters "sort_rule list"
  | SetKeys "jsval list"

record state_object =
  data_ref :: nat
  o_totalCount :: int
  o_totalPages :: int
  o_currentPage :: int
  filters_ref :: nat
  sorters_ref :: nat
  selectedRows_ref :: nat

definition getState :: "obj list \<Rightarrow> state_object \<Rightarrow> state_object \<times> obj list" where
  "getState h state = (state\<lparr>selectedRows_ref := length h\<rparr>, h @ [h ! selectedRows_ref state])"

definition view :: "obj list \<Rightarrow> state_object \<Rightarrow> grid_state" where
  "view h state =
     \<lparr>data = (case h ! data_ref state of ArrTickets rows \<Rightarrow> rows | _ \<Rightarrow> []),
      totalCount = o_totalCount state,
      totalPages = o_totalPages state,
      currentPage = o_currentPage state,
      state_filters = (case h ! filters_ref state of ArrFilters fs \<Rightarrow> fs | _ \<Rightarrow> []),
      state_sorters = (case h ! sorters_ref state of ArrSorters ss \<Rightarrow> ss | _ \<Rightarrow> []),
      selectedRows = (case h ! selectedRows_ref state of SetKeys ks \<Rightarrow> ks | _ \<Rightarrow> [])\<rparr>"

text \<open>What a caller can do to an object it holds: \<open>push\<close> on an array, \<open>add\<close> on a set.\<close>

definition push_filter :: "obj list \<Rightarrow> nat \<Rightarrow> grid_filter \<Rightarrow> obj list" where
  "push_filter h r f = h[r := (case h ! r of ArrFilters fs \<Rightarrow> ArrFilters (fs @ [f]) | other \<Rightarrow> other)]"

definition push_ticket :: "obj list \<Rightarrow> nat \<Rightarrow> ticket \<Rightarrow> obj list" where
  "push_ticket h r t = h[r := (case h ! r of ArrTickets rows \<Rightarrow> ArrTickets (rows @ [t]) | other \<Rightarrow> other)]"

definition push_sorter :: "obj list \<Rightarrow> nat \<Rightarrow> sort_rule \<Rightarrow> obj list" where
  "push_sorter h r s = h[r := (case h ! r of ArrSorters ss \<Rightarrow> ArrSorters (ss @ [s]) | other \<Rightarrow> other)]"

definition set_add :: "obj list \<Rightarrow> nat \<Rightarrow> jsval \<Rightarrow> obj list" where
  "set_add h r k =
     h[r := (case h ! r of
               SetKeys ks \<Rightarrow> SetKeys (if k \<in> set ks then ks else ks @ [k])
             | other \<Rightarrow> other)]"

section \<open>The rule editors of \<open>App\<close> and \<open>TatuaTicketingSystem\<close>\<close>










section \<open>Confidentiality wrapper and storage strategies\<close>

text \<open>
  \<open>crypto.js\<close> and the storage classes call into the CryptoJS library and the JSON
  built-ins, which are not part of the repository; they are parameters of the model.
  \<open>aes_encrypt text key salt\<close> is \<open>CryptoJS.AES.encrypt(text, key).toString()\<close>, with
  the salt that the library draws for the call made explicit; \<open>aes_decrypt_utf8
  ciphertext key\<close> is \<open>CryptoJS.AES.decrypt(ciphertext, key).toString(CryptoJS.enc.Utf8)\<close>.
  Either may raise. \<open>json_parse\<close> raises on malformed text and otherwise yields an array
  of records or some other JSON value. The passphrase is the one of
  \<open>services/crypto.js\<close>; the second copy of the file differs in the passphrase only.
\<close>

datatype parsed = ParsedArray "ticket list" | ParsedOther

record runtime =
  aes_encrypt :: "string \<Rightarrow> string \<Rightarrow> string \<Rightarrow> js_error + string"
  aes_decrypt_utf8 :: "string \<Rightarrow> string \<Rightarrow> js_error + string"
  json_stringify :: "ticket list \<Rightarrow> string"
  json_parse :: "string \<Rightarrow> js_error + parsed"

definition CIPHER_KEY :: string where
  "CIPHER_KEY = ''tatua_super_secret_key_for_aes_2025!''"

definition encryptAES :: "runtime \<Rightarrow> string \<Rightarrow> string \<Rightarrow> js_error + string" where
  "encryptAES rt salt text = try_catch (aes_encrypt rt text CIPHER_KEY salt) (\<lambda>e. Inr text)"

definition decryptAES :: "runtime \<Rightarrow> string \<Rightarrow> js_error + string" where
  "decryptAES rt ciphertext =
     try_catch
       (case aes_decrypt_utf8 rt ciphertext CIPHER_KEY of
          Inl e \<Rightarrow> Inl e
        | Inr decryptedText \<Rightarrow>
            if decryptedText = [] then Inl EmptyDecryption else Inr decryptedText)
       (\<lambda>e. Inr ciphertext)"

text \<open>
  \<open>MemoryStorage\<close> keeps the array of tickets; \<open>unshift\<close> puts the ticket in front,
  \<open>find\<close> returns the first ticket with the given id or \<open>undefined\<close> (\<open>None\<close>). The
  strict equality of ids is equality of values, which is what it is on the strings
  that serve as ids.
\<close>

definition Memory_getTickets :: "ticket list \<Rightarrow> ticket list" where
  "Memory_getTickets tickets = tickets"

definition Memory_saveTicket :: "ticket \<Rightarrow> ticket list \<Rightarrow> ticket list" where
  "Memory_saveTicket ticket tickets = ticket # tickets"

definition Memory_getTicket :: "ticket list \<Rightarrow> jsval \<Rightarrow> ticket option" where
  "Memory_getTicket tickets ticketId = find (\<lambda>t. field t ''id'' = ticketId) tickets"

text \<open>
  \<open>PersistentStorage\<close> works on a key-value store of the browser. \<open>getItem\<close> yields
  \<open>null\<close> (here \<open>None\<close>) for a key that is not set. \<open>setItem\<close> replaces the entry of
  the key, unless the browser refuses the new contents because they exceed the quota
  of the origin; it then raises a QuotaExceededError and leaves the store as it was.
  What fits the quota is the browser's decision, \<open>within_quota\<close>.
\<close>

record web_storage =
  items :: "(string \<times> string) list"
  within_quota :: "(string \<times> string) list \<Rightarrow> bool"

definition getItem :: "web_storage \<Rightarrow> string \<Rightarrow> string option" where
  "getItem storage k = map_of (items storage) k"

definition written :: "web_storage \<Rightarrow> string \<Rightarrow> string \<Rightarrow> web_storage" where
  "written storage k v = storage\<lparr>items := (k, v) # filter (\<lambda>entry. fst entry \<noteq> k) (items storage)\<rparr>"

definition setItem :: "web_storage \<Rightarrow> string \<Rightarrow> string \<Rightarrow> js_error + web_storage" where
  "setItem storage k v =
     (if within_quota storage (items (written storage k v)) then Inr (written storage k v)
      else Inl QuotaExceededError)"

text \<open>
  \<open>getTickets\<close> yields \<open>[]\<close> for a missing or empty entry and for text that does not
  parse; what it yields otherwise is whatever \<open>JSON.parse\<close> returns, and the array
  methods that \<open>saveTicket\<close> and \<open>getTicket\<close> call on it raise a TypeError when that is
  not an array.
\<close>

definition getTickets :: "runtime \<Rightarrow> web_storage \<Rightarrow> string \<Rightarrow> parsed" where
  "getTickets rt storage storageKey =
     (case getItem storage storageKey of
        None \<Rightarrow> ParsedArray []
      | Some stored \<Rightarrow>
          if stored = [] then ParsedArray []
          else (case try_catch
                       (case decryptAES rt stored of
                          Inl e \<Rightarrow> Inl e
                        | Inr plain \<Rightarrow> json_parse rt plain)
                       (\<lambda>e. Inr (ParsedArray [])) of
                  Inl e \<Rightarrow> ParsedArray []
                | Inr v \<Rightarrow> v))"

definition saveToStorage ::
  "runtime \<Rightarrow> string \<Rightarrow> web_storage \<Rightarrow> string \<Rightarrow> ticket list \<Rightarrow> js_error + web_storage" where
  "saveToStorage rt salt storage storageKey tickets =
     (case encryptAES rt salt (json_stringify rt tickets) of
        Inl e \<Rightarrow> Inl e
      | Inr ciphertext \<Rightarrow> setItem storage storageKey ciphertext)"

definition saveTicket ::
  "runtime \<Rightarrow> string \<Rightarrow> ticket \<Rightarrow> web_storage \<Rightarrow> string \<Rightarrow> js_error + web_storage" where
  "saveTicket rt salt ticket storage storageKey =
     (case getTickets rt storage storageKey of
        ParsedOther \<Rightarrow> Inl TypeError
      | ParsedArray tickets \<Rightarrow> saveToStorage rt salt storage storageKey (ticket # tickets))"

definition getTicket :: "runtime \<Rightarrow> web_storage \<Rightarrow> string \<Rightarrow> jsval \<Rightarrow> js_error + ticket option" where
  "getTicket rt storage storageKey ticketId =
     (case getTickets rt storage storageKey of
        ParsedOther \<Rightarrow> Inl TypeError
      | ParsedArray tickets \<Rightarrow> Inr (find (\<lambda>t. field t ''id'' = ticketId) tickets))"

text \<open>\<open>SessionStorage\<close> and \<open>LocalStorage\<close> fix the store and the key.\<close>

record browser =
  sessionStorage :: web_storage
  localStorage :: web_storage

definition Session_saveTicket :: "runtime \<Rightarrow> string \<Rightarrow> ticket \<Rightarrow> browser \<Rightarrow> js_error + browser" where
  "Session_saveTicket rt salt ticket b =
     map_sum id (\<lambda>s. b\<lparr>sessionStorage := s\<rparr>)
       (saveTicket rt salt ticket (sessionStorage b) ''tatua_tickets_session_aes'')"

definition Session_getTicket :: "runtime \<Rightarrow> browser \<Rightarrow> jsval \<Rightarrow> js_error + ticket option" where
  "Session_getTicket rt b ticketId =
     getTicket rt (sessionStorage b) ''tatua_tickets_session_aes'' ticketId"

definition Session_getTickets :: "runtime \<Rightarrow> browser \<Rightarrow> parsed" where
  "Session_getTickets rt b = getTickets rt (sessionStorage b) ''tatua_tickets_session_aes''"

definition Local_saveTicket :: "runtime \<Rightarrow> string \<Rightarrow> ticket \<Rightarrow> browser \<Rightarrow> js_error + browser" where
  "Local_saveTicket rt salt ticket b =
     map_sum id (\<lambda>s. b\<lparr>localStorage := s\<rparr>)
       (saveTicket rt salt ticket (localStorage b) ''tatua_tickets_local_aes'')"

definition Local_getTicket :: "runtime \<Rightarrow> browser \<Rightarrow> jsval \<Rightarrow> js_error + ticket option" where
  "Local_getTicket rt b ticketId =
     getTicket rt (localStorage b) ''tatua_tickets_local_aes'' ticketId"

definition Local_getTickets :: "runtime \<Rightarrow> browser \<Rightarrow> parsed" where
  "Local_getTickets rt b = getTickets rt (localStorage b) ''tatua_tickets_local_aes''"

text \<open>
  The sequence \<open>saveTicket(r); getTicket(r.id)\<close> on each strategy: an exception of
  the save ends the sequence.
\<close>

definition Memory_save_then_get :: "ticket \<Rightarrow> ticket list \<Rightarrow> ticket option" where
  "Memory_save_then_get r tickets = Memory_getTicket (Memory_saveTicket r tickets) (field r ''id'')"

definition Session_save_then_get ::
  "runtime \<Rightarrow> string \<Rightarrow> ticket \<Rightarrow> browser \<Rightarrow> js_error + ticket option" where
  "Session_save_then_get rt salt r b =
     (case Session_saveTicket rt salt r b of
        Inl e \<Rightarrow> Inl e
      | Inr b' \<Rightarrow> Session_getTicket rt b' (field r ''id''))"

definition Local_save_then_get ::
  "runtime \<Rightarrow> string \<Rightarrow> ticket \<Rightarrow> browser \<Rightarrow> js_error + ticket option" where
  "Local_save_then_get rt salt r b =
     (case Local_saveTicket rt salt r b of
        Inl e \<Rightarrow> Inl e
      | Inr b' \<Rightarrow> Local_getTicket rt b' (field r ''id''))"

text \<open>
  The environment round-trips the collection that \<open>saveTicket\<close> writes for the ticket
  \<open>r\<close>: the entry read before the save is an array \<open>old\<close> (or nothing readable, which
  reads as \<open>[]\<close>), the text written for \<open>r # old\<close> is the non-empty \<open>ciphertext\<close>, the
  browser accepts the write, and decrypting and parsing the text gives \<open>r # old\<close>
  back. The strict equality \<open>t.id === ticketId\<close> of \<open>find\<close> is equality of values on
  the ids that are strings, safe integers, booleans, \<open>null\<close> or \<open>undefined\<close>; two
  objects are equal only when they are the same object, which a parsed copy never is.
\<close>

definition round_trips ::
  "runtime \<Rightarrow> string \<Rightarrow> web_storage \<Rightarrow> string \<Rightarrow> ticket \<Rightarrow> string \<Rightarrow> bool" where
  "round_trips rt salt storage storageKey r ciphertext \<longleftrightarrow>
     (\<exists>old. getTickets rt storage storageKey = ParsedArray old
          \<and> encryptAES rt salt (json_stringify rt (r # old)) = Inr ciphertext
          \<and> ciphertext \<noteq> []
          \<and> within_quota storage (items (written storage storageKey ciphertext))
          \<and> decryptAES rt ciphertext = Inr (json_stringify rt (r # old))
          \<and> json_parse rt (json_stringify rt (r # old)) = Inr (ParsedArray (r # old)))"

fun plain_id :: "jsval \<Rightarrow> bool" where
  "plain_id (JNum n) = safe_integer n"
| "plain_id (JObj members) = False"
| "plain_id (JFun name) = False"
| "plain_id v = True"

subsection \<open>A runtime for examples\<close>

text \<open>
  The cipher of the example runtime reverses the text behind a marker. Its JSON
  functions work on collections of records whose members are strings, integers,
  booleans, \<open>null\<close> and nested records with distinct member names. The text is the
  compact one that \<open>JSON.stringify\<close> prints, with its escapes; a member whose value
  is \<open>undefined\<close> or a function is left out, as \<open>JSON.stringify\<close> leaves it out. The
  parser reads the JSON grammar on such texts (numbers without fraction or exponent,
  escapes of code units below 256, no array inside a record): an array of records
  parses to the collection, a value that is not an array is \<open>ParsedOther\<close>, and every
  other text is refused.
\<close>

definition hex_char :: "nat \<Rightarrow> char" where
  "hex_char d = ''0123456789abcdef'' ! d"

definition json_quote_char :: "char \<Rightarrow> string" where
  "json_quote_char c =
     (let n = (of_char c :: nat)
      in if n = 34 then [CHR 0x5C, CHR 0x22]
         else if n = 92 then [CHR 0x5C, CHR 0x5C]
         else if n = 8 then [CHR 0x5C, CHR ''b'']
         else if n = 12 then [CHR 0x5C, CHR ''f'']
         else if n = 10 then [CHR 0x5C, CHR ''n'']
         else if n = 13 then [CHR 0x5C, CHR ''r'']
         else if n = 9 then [CHR 0x5C, CHR ''t'']
         else if n < 32 then [CHR 0x5C, CHR ''u'', CHR ''0'', CHR ''0'', hex_char (n div 16), hex_char (n mod 16)]
         else [c])"

definition json_quote :: "string \<Rightarrow> string" where
  "json_quote s = CHR 0x22 # concat (map json_quote_char s) @ [CHR 0x22]"

fun join_commas :: "string list \<Rightarrow> string" where
  "join_commas [] = []"
| "join_commas [x] = x"
| "join_commas (x # y # rest) = x @ CHR '','' # join_commas (y # rest)"

fun stringify_value :: "jsval \<Rightarrow> string option"
  and stringify_members :: "(string \<times> jsval) list \<Rightarrow> string list" where
  "stringify_value JUndefined = None"
| "stringify_value (JFun name) = None"
| "stringify_value JNull = Some ''null''"
| "stringify_value (JBool b) = Some (if b then ''true'' else ''false'')"
| "stringify_value (JNum n) = Some (int_to_dec n)"
| "stringify_value (JStr s) = Some (json_quote s)"
| "stringify_value (JObj members) = Some (CHR ''{'' # join_commas (stringify_members members) @ [CHR ''}''])"
| "stringify_members [] = []"
| "stringify_members ((k, v) # rest) =
     (case stringify_value v of
        None \<Rightarrow> stringify_members rest
      | Some text \<Rightarrow> (json_quote k @ CHR '':'' # text) # stringify_members rest)"

definition JSON_stringify :: "ticket list \<Rightarrow> string" where
  "JSON_stringify tickets =
     CHR ''['' # join_commas (map (\<lambda>t. CHR ''{'' # join_commas (stringify_members t) @ [CHR ''}'']) tickets) @ [CHR '']'']"

datatype token =
    TLBrace | TRBrace | TLBracket | TRBracket | TComma | TColon
  | TString string | TNumber int | TTrue | TFalse | TNull

definition hex_value :: "char \<Rightarrow> nat option" where
  "hex_value c =
     (let n = (of_char c :: nat)
      in if 48 \<le> n \<and> n \<le> 57 then Some (n - 48)
         else if 97 \<le> n \<and> n \<le> 102 then Some (n - 87)
         else if 65 \<le> n \<and> n \<le> 70 then Some (n - 55)
         else None)"

definition unescape :: "char \<Rightarrow> char option" where
  "unescape e =
     (if e = CHR 0x22 \<or> e = CHR 0x5C \<or> e = CHR ''/'' then Some e
      else if e = CHR ''b'' then Some (char_of (8::nat))
      else if e = CHR ''f'' then Some (char_of (12::nat))
      else if e = CHR ''n'' then Some (char_of (10::nat))
      else if e = CHR ''r'' then Some (char_of (13::nat))
      else if e = CHR ''t'' then Some (char_of (9::nat))
      else None)"

text \<open>
  The lexer and the parser count down a fuel that bounds the number of steps; the text
  has fewer characters, and the token list fewer tokens, than the fuel they are given.
\<close>

fun lex_string :: "nat \<Rightarrow> string \<Rightarrow> (string \<times> string) option" where
  "lex_string 0 text = None"
| "lex_string (Suc fuel) [] = None"
| "lex_string (Suc fuel) (c # cs) =
     (if c = CHR 0x22 then Some ([], cs)
      else if c = CHR 0x5C then
        (case cs of
           [] \<Rightarrow> None
         | e # rest \<Rightarrow>
             if e = CHR ''u'' then
               (case rest of
                  a # b # h # l # rest' \<Rightarrow>
                    (case (a = CHR ''0'' \<and> b = CHR ''0'', hex_value h, hex_value l) of
                       (True, Some x, Some y) \<Rightarrow>
                         map_option (\<lambda>(s, r). (char_of (16 * x + y) # s, r)) (lex_string fuel rest')
                     | _ \<Rightarrow> None)
                | _ \<Rightarrow> None)
             else
               (case unescape e of
                  None \<Rightarrow> None
                | Some ch \<Rightarrow> map_option (\<lambda>(s, r). (ch # s, r)) (lex_string fuel rest)))
      else if (of_char c :: nat) < 32 then None
      else map_option (\<lambda>(s, r). (c # s, r)) (lex_string fuel cs))"

definition lex_number :: "string \<Rightarrow> (int \<times> string) option" where
  "lex_number text =
     (let negative = (text \<noteq> [] \<and> hd text = CHR ''-'');
          body = (if negative then tl text else text);
          ds = takeWhile is_digit body;
          rest = dropWhile is_digit body
      in if ds = [] \<or> (length ds > 1 \<and> hd ds = CHR ''0'')
            \<or> (rest \<noteq> [] \<and> hd rest \<in> {CHR ''.'', CHR ''e'', CHR ''E''})
         then None
         else Some (if negative then - int (digits_value ds) else int (digits_value ds), rest))"

fun tokenize :: "nat \<Rightarrow> string \<Rightarrow> token list option" where
  "tokenize 0 text = None"
| "tokenize (Suc fuel) [] = Some []"
| "tokenize (Suc fuel) (c # cs) =
     (if (of_char c :: nat) \<in> {9, 10, 13, 32} then tokenize fuel cs
      else if c = CHR ''{'' then map_option (Cons TLBrace) (tokenize fuel cs)
      else if c = CHR ''}'' then map_option (Cons TRBrace) (tokenize fuel cs)
      else if c = CHR ''['' then map_option (Cons TLBracket) (tokenize fuel cs)
      else if c = CHR '']'' then map_option (Cons TRBracket) (tokenize fuel cs)
      else if c = CHR '','' then map_option (Cons TComma) (tokenize fuel cs)
      else if c = CHR '':'' then map_option (Cons TColon) (tokenize fuel cs)
      else if c = CHR 0x22 then
        (case lex_string (Suc (length cs)) cs of
           None \<Rightarrow> None
         | Some (s, rest) \<Rightarrow> map_option (Cons (TString s)) (tokenize fuel rest))
      else if take 4 (c # cs) = ''true'' then map_option (Cons TTrue) (tokenize fuel (drop 3 cs))
      else if take 5 (c # cs) = ''false'' then map_option (Cons TFalse) (tokenize fuel (drop 4 cs))
      else if take 4 (c # cs) = ''null'' then map_option (Cons TNull) (tokenize fuel (drop 3 cs))
      else
        (case lex_number (c # cs) of
           None \<Rightarrow> None
         | Some (n, rest) \<Rightarrow> map_option (Cons (TNumber n)) (tokenize fuel rest)))"

fun parse_value :: "nat \<Rightarrow> token list \<Rightarrow> (jsval \<times> token list) option"
  and parse_members :: "nat \<Rightarrow> token list \<Rightarrow> ((string \<times> jsval) list \<times> token list) option" where
  "parse_value 0 ts = None"
| "parse_value (Suc fuel) [] = None"
| "parse_value (Suc fuel) (t # ts) =
     (case t of
        TString s \<Rightarrow> Some (JStr s, ts)
      | TNumber n \<Rightarrow> Some (JNum n, ts)
      | TTrue \<Rightarrow> Some (JBool True, ts)
      | TFalse \<Rightarrow> Some (JBool False, ts)
      | TNull \<Rightarrow> Some (JNull, ts)
      | TLBrace \<Rightarrow>
          (case ts of
             TRBrace # rest \<Rightarrow> Some (JObj [], rest)
           | _ \<Rightarrow> map_option (\<lambda>(ms, rest). (JObj ms, rest)) (parse_members fuel ts))
      | _ \<Rightarrow> None)"
| "parse_members 0 ts = None"
| "parse_members (Suc fuel) ts =
     (case ts of
        TString k # TColon # rest \<Rightarrow>
          (case parse_value fuel rest of
             None \<Rightarrow> None
           | Some (v, rest') \<Rightarrow>
               (case rest' of
                  TRBrace # rest'' \<Rightarrow> Some ([(k, v)], rest'')
                | TComma # rest'' \<Rightarrow>
                    map_option (\<lambda>(ms, r). ((k, v) # ms, r)) (parse_members fuel rest'')
                | _ \<Rightarrow> None))
      | _ \<Rightarrow> None)"

fun parse_records :: "nat \<Rightarrow> token list \<Rightarrow> (ticket list \<times> token list) option" where
  "parse_records 0 ts = None"
| "parse_records (Suc fuel) ts =
     (case parse_value (Suc (length ts)) ts of
        Some (JObj ms, rest) \<Rightarrow>
          (case rest of
             TRBracket # rest' \<Rightarrow> Some ([ms], rest')
           | TComma # rest' \<Rightarrow> map_option (\<lambda>(rs, r). (ms # rs, r)) (parse_records fuel rest')
           | _ \<Rightarrow> None)
      | _ \<Rightarrow> None)"

definition JSON_parse :: "string \<Rightarrow> js_error + parsed" where
  "JSON_parse text =
     (case tokenize (Suc (length text)) text of
        None \<Rightarrow> Inl SyntaxError
      | Some ts \<Rightarrow>
          (case ts of
             [TLBracket, TRBracket] \<Rightarrow> Inr (ParsedArray [])
           | TLBracket # rest \<Rightarrow>
               (case parse_records (Suc (length rest)) rest of
                  Some (rs, []) \<Rightarrow> Inr (ParsedArray rs)
                | _ \<Rightarrow> Inl SyntaxError)
           | _ \<Rightarrow>
               (case parse_value (Suc (length ts)) ts of
                  Some (v, []) \<Rightarrow> Inr ParsedOther
                | _ \<Rightarrow> Inl SyntaxError)))"

definition demo_runtime :: runtime where
  "demo_runtime =
     \<lparr>aes_encrypt = (\<lambda>text key salt. Inr (CHR ''#'' # rev text)),
      aes_decrypt_utf8 =
        (\<lambda>ciphertext key.
           case ciphertext of
             [] \<Rightarrow> Inr []
           | c # cs \<Rightarrow> if c = CHR ''#'' then Inr (rev cs) else Inl LibraryError),
      json_stringify = JSON_stringify,
      json_parse = JSON_parse\<rparr>"

section \<open>Properties of the query evaluator\<close>

lemma or_empty_defined: "or_empty v \<noteq> JUndefined \<and> or_empty v \<noteq> JNull"
  by (cases v) (simp_all add: or_empty_def)

lemma startsWith_prefix: "startsWith s p \<longleftrightarrow> prefix p s"
  unfolding startsWith_def
  by (metis append_eq_conv_conj prefix_def)

lemma endsWith_suffix: "endsWith s p \<longleftrightarrow> suffix p s"
proof
  assume "endsWith s p"
  then have "drop (length s - length p) s = p" by (simp add: endsWith_def)
  then show "suffix p s" by (metis suffix_drop)
next
  assume "suffix p s"
  then obtain q where "s = q @ p" by (auto simp: suffix_def)
  then show "endsWith s p" by (simp add: endsWith_def)
qed

lemma str_includes_sublist: "str_includes s p \<longleftrightarrow> sublist p s"
proof (induction s)
  case Nil
  show ?case by simp
next
  case (Cons c cs)
  show ?case
    by (simp add: Cons.IH startsWith_prefix sublist_Cons_right)
qed

lemma falsy_empty_string_eq: "falsy_empty_string v = toString (or_empty v)"
  by (cases v) (auto simp: falsy_empty_string_def or_empty_def)

lemma matchesFilter_holds: "matchesFilter t f \<longleftrightarrow> holds_with field falsy_empty_string t f"
  by (auto simp: matchesFilter_def holds_with_def coerce_def falsy_empty_string_eq
      str_includes_sublist startsWith_prefix endsWith_suffix Let_def)

lemma mset_insert_by: "mset (insert_by cmp x ys) = add_mset x (mset ys)"
  by (induction ys) auto

lemma mset_sort_by: "mset (sort_by cmp xs) = mset xs"
  by (induction xs) (auto simp: sort_by_def mset_insert_by)

lemma length_sort_by: "length (sort_by cmp xs) = length xs"
  by (metis mset_sort_by size_mset)

lemma set_sort_by: "set (sort_by cmp xs) = set xs"
  by (metis mset_sort_by set_mset_mset)

lemma sort_by_all_equal:
  assumes "\<forall>a\<in>set xs. \<forall>b\<in>set xs. cmp a b \<le> 0"
  shows "sort_by cmp xs = xs"
  using assms
proof (induction xs)
  case Nil
  show ?case by (simp add: sort_by_def)
next
  case (Cons x xs)
  then have IH: "sort_by cmp xs = xs" by simp
  have "insert_by cmp x xs = x # xs"
    using Cons.prems by (cases xs) auto
  with IH show ?case by (simp add: sort_by_def)
qed

lemma sort_by_no_sorters: "sort_by (compareBy []) xs = xs"
  by (rule sort_by_all_equal) simp

lemma processTickets_filter:
  "processTickets tickets filters sorters =
     sort_by (compareBy sorters) (filter (\<lambda>t. \<forall>f\<in>set filters. matchesFilter t f) tickets)"
  by (cases filters) (simp_all add: processTickets_def list_all_iff)

lemma processTickets_heap_frame:
  assumes "tickets < length h"
  shows "case processTickets_heap h tickets filters sorters of
           (r, h') \<Rightarrow> length h \<le> r \<and> r < length h' \<and> take (length h) h' = h
                    \<and> h' ! r = processTickets (h ! tickets) filters sorters"
proof (cases "length filters > 0")
  case True
  then show ?thesis
    using assms
    by (simp add: processTickets_heap_def alloc_def processTickets_def Let_def nth_append)
next
  case False
  then show ?thesis
    using assms
    by (simp add: processTickets_heap_def alloc_def processTickets_def Let_def nth_append)
qed




text \<open>
  Claim C1, as stated, at a record whose field holds the number 0: coerced to a string
  the field is \<open>''0''\<close> and equals the rule's value, so the record satisfies the rule
  in the words of the specification, yet \<open>processTickets\<close> turns the falsy 0 into the
  empty string and drops the record. And at the column \<open>constructor\<close>, which the
  record does not have: treated as the empty string it does not contain \<open>object\<close>, yet
  \<open>processTickets\<close> reads the function that the record inherits and keeps the record.
\<close>

theorem filter_string_coercion_counterexample:
  "processTickets [[(''id'', JStr ''T1''), (''count'', JNum 0)]]
     [\<lparr>column = ''count'', relation = ''equals'', fvalue = JStr ''0''\<rparr>] [] = []
   \<and> spec_filter [[(''id'', JStr ''T1''), (''count'', JNum 0)]]
     [\<lparr>column = ''count'', relation = ''equals'', fvalue = JStr ''0''\<rparr>]
     = [[(''id'', JStr ''T1''), (''count'', JNum 0)]]
   \<and> processTickets [[(''id'', JStr ''T1''), (''count'', JNum 0)]]
     [\<lparr>column = ''constructor'', relation = ''contains'', fvalue = JStr ''object''\<rparr>] []
     = [[(''id'', JStr ''T1''), (''count'', JNum 0)]]
   \<and> spec_filter [[(''id'', JStr ''T1''), (''count'', JNum 0)]]
     [\<lparr>column = ''constructor'', relation = ''contains'', fvalue = JStr ''object''\<rparr>] = []"
  by code_simp

lemma spec_string_strings:
  "v = JUndefined \<or> (\<exists>s. v = JStr s) \<Longrightarrow> spec_string v = falsy_empty_string v"
  by (auto simp: spec_string_def falsy_empty_string_def)

lemma own_field_not_inherited:
  "map_of Object_prototype c = None \<Longrightarrow> own_field t c = field t c"
  by (simp add: own_field_def field_def split: option.splits)

lemma processTickets_spec_filter:
  assumes "\<forall>t\<in>set tickets. \<forall>f\<in>set filters.
             field t (column f) = JUndefined \<or> (\<exists>s. field t (column f) = JStr s)"
    and "\<forall>f\<in>set filters. map_of Object_prototype (column f) = None"
    and "\<forall>f\<in>set filters. \<exists>s. fvalue f = JStr s"
  shows "processTickets tickets filters [] = spec_filter tickets filters"
proof -
  have "(\<forall>f\<in>set filters. matchesFilter t f) \<longleftrightarrow> list_all (holds_with own_field spec_string t) filters"
    if "t \<in> set tickets" for t
  proof -
    have "holds_with field falsy_empty_string t f = holds_with own_field spec_string t f"
      if "f \<in> set filters" for f
    proof -
      have o: "own_field t (column f) = field t (column f)"
        using assms(2) that by (intro own_field_not_inherited) blast
      have a: "spec_string (field t (column f)) = falsy_empty_string (field t (column f))"
        using assms(1) \<open>t \<in> set tickets\<close> that by (intro spec_string_strings) blast
      have b: "spec_string (fvalue f) = falsy_empty_string (fvalue f)"
        using assms(3) that by (intro spec_string_strings) blast
      show ?thesis by (simp add: holds_with_def o a b)
    qed
    then show ?thesis by (simp add: matchesFilter_holds list_all_iff)
  qed
  then have "filter (\<lambda>t. \<forall>f\<in>set filters. matchesFilter t f) tickets
           = filter (\<lambda>r. list_all (holds_with own_field spec_string r) filters) tickets"
    by (intro filter_cong) auto
  then show ?thesis
    by (simp add: processTickets_filter sort_by_no_sorters spec_filter_def)
qed

text \<open>
  Claim C1, amended. With no sort rules \<open>processTickets\<close> returns exactly the records
  that satisfy every filter rule, in their original order, where a rule is satisfied by
  case-insensitive comparison of strings, the field is read as \<open>ticket[column]\<close> reads
  it (an own property, else the one inherited from \<open>Object.prototype\<close>, else
  \<open>undefined\<close>), and the conversion to a string sends \<open>undefined\<close> and every other
  falsy value (\<open>null\<close>, \<open>false\<close>, \<open>0\<close>, \<open>''\<close>) to the empty string. The empty rule list
  returns the input unchanged; with sort rules the same records come back, rearranged.
  In the store, the result is a freshly allocated array and every array that existed
  before the call, the input among them, is left as it was. The statement is about the
  values on which the coercions of the filter and the comparisons of the sort are the
  ones modelled.
\<close>

theorem processTickets_filters_exactly:
  assumes "tickets < length h"
    and "filter_values_modelled (h ! tickets) filters"
    and "sort_values_modelled (h ! tickets) sorters"
  shows "processTickets (h ! tickets) filters []
           = filter (\<lambda>t. \<forall>f\<in>set filters. holds_with field falsy_empty_string t f) (h ! tickets)
       \<and> processTickets (h ! tickets) [] [] = h ! tickets
       \<and> mset (processTickets (h ! tickets) filters sorters)
           = mset (filter (\<lambda>t. \<forall>f\<in>set filters. holds_with field falsy_empty_string t f) (h ! tickets))
       \<and> (case processTickets_heap h tickets filters sorters of
            (r, h') \<Rightarrow> length h \<le> r \<and> r < length h' \<and> take (length h) h' = h
                     \<and> h' ! r = processTickets (h ! tickets) filters sorters)"
proof -
  let ?ts = "h ! tickets"
  have a: "processTickets ?ts filters [] = filter (\<lambda>t. \<forall>f\<in>set filters. holds_with field falsy_empty_string t f) ?ts"
    by (simp add: processTickets_filter sort_by_no_sorters matchesFilter_holds)
  have b: "processTickets ?ts [] [] = ?ts"
    by (simp add: processTickets_filter sort_by_no_sorters)
  have c: "mset (processTickets ?ts filters sorters)
           = mset (filter (\<lambda>t. \<forall>f\<in>set filters. holds_with field falsy_empty_string t f) ?ts)"
    by (simp add: processTickets_filter matchesFilter_holds mset_sort_by)
  have d: "case processTickets_heap h tickets filters sorters of
            (r, h') \<Rightarrow> length h \<le> r \<and> r < length h' \<and> take (length h) h' = h
                     \<and> h' ! r = processTickets (h ! tickets) filters sorters"
    by (rule processTickets_heap_frame [OF assms(1)])
  show ?thesis by (intro conjI a b c d)
qed

theorem processTickets_filters_exactly_witness:
  "processTickets_heap
     [[[(''id'', JStr ''T1''), (''subject'', JStr ''Login bug'')],
       [(''id'', JStr ''T2''), (''subject'', JStr ''Billing'')],
       [(''id'', JStr ''T3''), (''subject'', JStr ''BUG in export'')]]]
     0 [\<lparr>column = ''subject'', relation = ''contains'', fvalue = JStr ''bug''\<rparr>] []
   = (2, [[[(''id'', JStr ''T1''), (''subject'', JStr ''Login bug'')],
           [(''id'', JStr ''T2''), (''subject'', JStr ''Billing'')],
           [(''id'', JStr ''T3''), (''subject'', JStr ''BUG in export'')]],
          [[(''id'', JStr ''T1''), (''subject'', JStr ''Login bug'')],
           [(''id'', JStr ''T2''), (''subject'', JStr ''Billing'')],
           [(''id'', JStr ''T3''), (''subject'', JStr ''BUG in export'')]],
          [[(''id'', JStr ''T1''), (''subject'', JStr ''Login bug'')],
           [(''id'', JStr ''T3''), (''subject'', JStr ''BUG in export'')]]])
   \<and> processTickets
       [[(''id'', JStr ''T1''), (''subject'', JStr ''Login bug'')],
        [(''id'', JStr ''T2''), (''subject'', JStr ''Billing'')],
        [(''id'', JStr ''T3''), (''subject'', JStr ''BUG in export'')]]
       [\<lparr>column = ''subject'', relation = ''contains'', fvalue = JStr ''bug''\<rparr>] []
     = [[(''id'', JStr ''T1''), (''subject'', JStr ''Login bug'')],
        [(''id'', JStr ''T3''), (''subject'', JStr ''BUG in export'')]]"
proof -
  let ?T = "[[(''id'', JStr ''T1''), (''subject'', JStr ''Login bug'')],
             [(''id'', JStr ''T2''), (''subject'', JStr ''Billing'')],
             [(''id'', JStr ''T3''), (''subject'', JStr ''BUG in export'')]]"
  let ?F = "[\<lparr>column = ''subject'', relation = ''contains'', fvalue = JStr ''bug''\<rparr>]"
  have h: "(0::nat) < length [?T]" by simp
  have m1: "filter_values_modelled ([?T] ! 0) ?F"
    by code_simp
  have m2: "sort_values_modelled ([?T] ! 0) []"
    by (simp add: sort_values_modelled_def)
  have v: "processTickets ?T ?F [] =
     [[(''id'', JStr ''T1''), (''subject'', JStr ''Login bug'')],
      [(''id'', JStr ''T3''), (''subject'', JStr ''BUG in export'')]]"
    by code_simp
  have w: "processTickets_heap [?T] 0 ?F [] = (2, [?T, ?T, processTickets ?T ?F []])"
    using processTickets_filters_exactly [OF h m1 m2]
    by (simp add: processTickets_heap_def alloc_def sort_by_no_sorters)
  from v w show ?thesis by simp
qed

lemma consistent_onD1: "consistent_on cmp S \<Longrightarrow> a \<in> S \<Longrightarrow> b \<in> S \<Longrightarrow> cmp b a = - cmp a b"
  unfolding consistent_on_def by blast

lemma consistent_onD2:
  "consistent_on cmp S \<Longrightarrow> a \<in> S \<Longrightarrow> b \<in> S \<Longrightarrow> c \<in> S \<Longrightarrow> cmp a b \<le> 0 \<Longrightarrow> cmp b c \<le> 0
     \<Longrightarrow> cmp a c \<le> 0"
  unfolding consistent_on_def by blast

lemma consistent_on_ge:
  assumes "consistent_on cmp S" "a \<in> S" "b \<in> S" "c \<in> S" "0 \<le> cmp a b" "0 \<le> cmp b c"
  shows "0 \<le> cmp a c"
proof -
  have "cmp c b \<le> 0"
    using consistent_onD1 [OF assms(1) assms(3) assms(4)] assms(6) by linarith
  moreover have "cmp b a \<le> 0"
    using consistent_onD1 [OF assms(1) assms(2) assms(3)] assms(5) by linarith
  ultimately have "cmp c b \<le> 0" "cmp b a \<le> 0" by blast+
  then have "cmp c a \<le> 0"
    using consistent_onD2 [OF assms(1) assms(4) assms(3) assms(2)] by blast
  then show ?thesis
    using consistent_onD1 [OF assms(1) assms(2) assms(4)] by linarith
qed

lemma consistent_on_eq:
  assumes "consistent_on cmp S" "a \<in> S" "b \<in> S" "c \<in> S" "cmp a b = 0" "cmp b c = 0"
  shows "cmp a c = 0"
proof -
  have "cmp a c \<le> 0"
    using consistent_onD2 [OF assms(1-4)] assms(5,6) by simp
  moreover have "0 \<le> cmp a c"
    using consistent_on_ge [OF assms(1-4)] assms(5,6) by simp
  ultimately show ?thesis by simp
qed

lemma consistent_on_lt_le:
  assumes "consistent_on cmp S" "a \<in> S" "b \<in> S" "c \<in> S" "cmp a b < 0" "cmp b c \<le> 0"
  shows "cmp a c < 0"
proof (rule ccontr)
  assume "\<not> cmp a c < 0"
  then have "0 \<le> cmp a c" by simp
  then have "cmp c a \<le> 0"
    using consistent_onD1 [OF assms(1) assms(2) assms(4)] by linarith
  with assms(6) have "cmp b a \<le> 0"
    using consistent_onD2 [OF assms(1) assms(3) assms(4) assms(2)] by blast
  then have "0 \<le> cmp a b"
    using consistent_onD1 [OF assms(1) assms(2) assms(3)] by linarith
  with assms(5) show False by simp
qed

lemma consistent_on_le_lt:
  assumes "consistent_on cmp S" "a \<in> S" "b \<in> S" "c \<in> S" "cmp a b \<le> 0" "cmp b c < 0"
  shows "cmp a c < 0"
proof (rule ccontr)
  assume "\<not> cmp a c < 0"
  then have "0 \<le> cmp a c" by simp
  then have "cmp c a \<le> 0"
    using consistent_onD1 [OF assms(1) assms(2) assms(4)] by linarith
  with assms(5) have "cmp c b \<le> 0"
    using consistent_onD2 [OF assms(1) assms(4) assms(2) assms(3)] by blast
  then have "0 \<le> cmp b c"
    using consistent_onD1 [OF assms(1) assms(3) assms(4)] by linarith
  with assms(6) show False by simp
qed

lemma consistent_on_uminus:
  assumes "consistent_on cmp S"
  shows "consistent_on (\<lambda>a b. - cmp a b) S"
  unfolding consistent_on_def
proof (intro conjI ballI impI)
  fix a b assume "a \<in> S" "b \<in> S"
  then show "- cmp b a = - (- cmp a b)"
    using consistent_onD1 [OF assms, of a b] by linarith
next
  fix a b c assume S: "a \<in> S" "b \<in> S" "c \<in> S" and le: "- cmp a b \<le> 0 \<and> - cmp b c \<le> 0"
  then have "0 \<le> cmp a c"
    using consistent_on_ge [OF assms S] by linarith
  then show "- cmp a c \<le> 0" by simp
qed

lemma consistent_on_lex:
  assumes c1: "consistent_on c1 S" and c2: "consistent_on c2 S"
  shows "consistent_on (\<lambda>a b. if c1 a b \<noteq> 0 then c1 a b else c2 a b) S"
  unfolding consistent_on_def
proof (intro conjI ballI impI)
  fix a b assume "a \<in> S" "b \<in> S"
  then show "(if c1 b a \<noteq> 0 then c1 b a else c2 b a) = - (if c1 a b \<noteq> 0 then c1 a b else c2 a b)"
    using consistent_onD1 [OF c1, of a b] consistent_onD1 [OF c2, of a b] by auto
next
  fix a b c
  assume S: "a \<in> S" "b \<in> S" "c \<in> S"
    and le: "(if c1 a b \<noteq> 0 then c1 a b else c2 a b) \<le> 0 \<and> (if c1 b c \<noteq> 0 then c1 b c else c2 b c) \<le> 0"
  show "(if c1 a c \<noteq> 0 then c1 a c else c2 a c) \<le> 0"
  proof (cases "c1 a b = 0")
    case ab0: True
    show ?thesis
    proof (cases "c1 b c = 0")
      case True
      then have "c1 a c = 0" using consistent_on_eq [OF c1 S] ab0 by simp
      moreover have "c2 a c \<le> 0"
        using le ab0 True consistent_onD2 [OF c2 S] by simp
      ultimately show ?thesis by simp
    next
      case False
      then have "c1 b c < 0" using le by (simp split: if_splits)
      then have "c1 a c < 0" using consistent_on_le_lt [OF c1 S] ab0 by simp
      then show ?thesis by simp
    qed
  next
    case False
    then have lt: "c1 a b < 0" using le by (simp split: if_splits)
    have "c1 b c \<le> 0"
    proof (cases "c1 b c = 0")
      case True then show ?thesis by simp
    next
      case False then show ?thesis using le by (simp split: if_splits)
    qed
    then have "c1 a c < 0" using consistent_on_lt_le [OF c1 S lt] by simp
    then show ?thesis by simp
  qed
qed

lemma three_way_flip:
  fixes x y :: "'a::linorder"
  shows "(if x < y then 1 else if y < x then - 1 else (0::int))
       = - (if y < x then 1 else if x < y then - 1 else (0::int))"
  by auto

lemma three_way_trans:
  fixes x y z :: "'a::linorder"
  assumes "(if y < x then 1 else if x < y then - 1 else (0::int)) \<le> 0"
    and "(if z < y then 1 else if y < z then - 1 else (0::int)) \<le> 0"
  shows "(if z < x then 1 else if x < z then - 1 else (0::int)) \<le> 0"
proof -
  have "x \<le> y" using assms(1) by (simp split: if_splits)
  moreover have "y \<le> z" using assms(2) by (simp split: if_splits)
  ultimately have "x \<le> z" by (rule order_trans)
  then show ?thesis by auto
qed

lemma comparison_str: "comparison (JStr s) (JStr t) = (if t < s then 1 else if s < t then - 1 else 0)"
  by (simp add: comparison_def js_gt_def js_lt_def prim_lt_def)

lemma comparison_num: "comparison (JNum m) (JNum n) = (if n < m then 1 else if m < n then - 1 else 0)"
  by (simp add: comparison_def js_gt_def js_lt_def prim_lt_def)

lemma consistent_on_column:
  assumes "(\<forall>t\<in>S. is_str (field t c)) \<or> (\<forall>t\<in>S. is_num (field t c))"
  shows "consistent_on (\<lambda>a b. comparison (field a c) (field b c)) S"
  using assms
proof
  assume str: "\<forall>t\<in>S. is_str (field t c)"
  have *: "\<exists>s. field t c = JStr s" if "t \<in> S" for t
  proof -
    have "is_str (field t c)" using str that by blast
    then show ?thesis by (cases "field t c") simp_all
  qed
  show ?thesis
    unfolding consistent_on_def
  proof (intro conjI ballI impI)
    fix a b assume mem: "a \<in> S" "b \<in> S"
    obtain x where x: "field a c = JStr x" using * [OF mem(1)] by blast
    obtain y where y: "field b c = JStr y" using * [OF mem(2)] by blast
    note xy = x y
    have "comparison (field b c) (field a c) = (if x < y then 1 else if y < x then - 1 else 0)"
      by (simp only: xy comparison_str)
    also have "\<dots> = - (if y < x then 1 else if x < y then - 1 else 0)"
      by (rule three_way_flip)
    also have "\<dots> = - comparison (field a c) (field b c)"
      by (simp only: xy comparison_str)
    finally show "comparison (field b c) (field a c) = - comparison (field a c) (field b c)" .
  next
    fix a b d assume mem: "a \<in> S" "b \<in> S" "d \<in> S"
      and le: "comparison (field a c) (field b c) \<le> 0 \<and> comparison (field b c) (field d c) \<le> 0"
    obtain x where x: "field a c = JStr x" using * [OF mem(1)] by blast
    obtain y where y: "field b c = JStr y" using * [OF mem(2)] by blast
    obtain z where z: "field d c = JStr z" using * [OF mem(3)] by blast
    note xyz = x y z
    from le have "(if y < x then 1 else if x < y then - 1 else (0::int)) \<le> 0"
      and "(if z < y then 1 else if y < z then - 1 else (0::int)) \<le> 0"
      by (simp_all only: xyz comparison_str)
    then have "(if z < x then 1 else if x < z then - 1 else (0::int)) \<le> 0"
      by (rule three_way_trans)
    then show "comparison (field a c) (field d c) \<le> 0"
      by (simp only: xyz comparison_str)
  qed
next
  assume num: "\<forall>t\<in>S. is_num (field t c)"
  have *: "\<exists>s. field t c = JNum s" if "t \<in> S" for t
  proof -
    have "is_num (field t c)" using num that by blast
    then show ?thesis by (cases "field t c") simp_all
  qed
  show ?thesis
    unfolding consistent_on_def
  proof (intro conjI ballI impI)
    fix a b assume mem: "a \<in> S" "b \<in> S"
    obtain x where x: "field a c = JNum x" using * [OF mem(1)] by blast
    obtain y where y: "field b c = JNum y" using * [OF mem(2)] by blast
    note xy = x y
    have "comparison (field b c) (field a c) = (if x < y then 1 else if y < x then - 1 else 0)"
      by (simp only: xy comparison_num)
    also have "\<dots> = - (if y < x then 1 else if x < y then - 1 else 0)"
      by (rule three_way_flip)
    also have "\<dots> = - comparison (field a c) (field b c)"
      by (simp only: xy comparison_num)
    finally show "comparison (field b c) (field a c) = - comparison (field a c) (field b c)" .
  next
    fix a b d assume mem: "a \<in> S" "b \<in> S" "d \<in> S"
      and le: "comparison (field a c) (field b c) \<le> 0 \<and> comparison (field b c) (field d c) \<le> 0"
    obtain x where x: "field a c = JNum x" using * [OF mem(1)] by blast
    obtain y where y: "field b c = JNum y" using * [OF mem(2)] by blast
    obtain z where z: "field d c = JNum z" using * [OF mem(3)] by blast
    note xyz = x y z
    from le have "(if y < x then 1 else if x < y then - 1 else (0::int)) \<le> 0"
      and "(if z < y then 1 else if y < z then - 1 else (0::int)) \<le> 0"
      by (simp_all only: xyz comparison_num)
    then have "(if z < x then 1 else if x < z then - 1 else (0::int)) \<le> 0"
      by (rule three_way_trans)
    then show "comparison (field a c) (field d c) \<le> 0"
      by (simp only: xyz comparison_num)
  qed
qed

lemma compareBy_Cons:
  "compareBy (s # ss) =
     (\<lambda>a b. if (if sort_order s = ''asc''
                 then comparison (field a (sort_column s)) (field b (sort_column s))
                 else - comparison (field a (sort_column s)) (field b (sort_column s))) \<noteq> 0
             then (if sort_order s = ''asc''
                   then comparison (field a (sort_column s)) (field b (sort_column s))
                   else - comparison (field a (sort_column s)) (field b (sort_column s)))
             else compareBy ss a b)"
  by (intro ext) (simp add: Let_def)

lemma consistent_on_compareBy:
  assumes "sortable tickets sorters"
  shows "consistent_on (compareBy sorters) (set tickets)"
  using assms
proof (induction sorters)
  case Nil
  show ?case by (simp add: consistent_on_def)
next
  case (Cons s ss)
  then have rest: "consistent_on (compareBy ss) (set tickets)"
    by (simp add: sortable_def)
  have col: "consistent_on (\<lambda>a b. comparison (field a (sort_column s)) (field b (sort_column s))) (set tickets)"
    using Cons.prems by (intro consistent_on_column) (simp add: sortable_def)
  have dir: "consistent_on (\<lambda>a b. if sort_order s = ''asc''
                 then comparison (field a (sort_column s)) (field b (sort_column s))
                 else - comparison (field a (sort_column s)) (field b (sort_column s))) (set tickets)"
  proof (cases "sort_order s = ''asc''")
    case True
    with col show ?thesis by simp
  next
    case False
    with consistent_on_uminus [OF col] show ?thesis by simp
  qed
  show ?case
    unfolding compareBy_Cons by (rule consistent_on_lex [OF dir rest])
qed

lemma set_insert_by: "set (insert_by cmp x ys) = insert x (set ys)"
  by (induction ys) auto

lemma sorted_insert_by:
  assumes con: "consistent_on cmp S" and x: "x \<in> S" and ys: "set ys \<subseteq> S"
    and sorted: "sorted_wrt (\<lambda>a b. cmp a b \<le> 0) ys"
  shows "sorted_wrt (\<lambda>a b. cmp a b \<le> 0) (insert_by cmp x ys)"
  using ys sorted
proof (induction ys)
  case Nil
  show ?case by simp
next
  case (Cons y ys)
  have y: "y \<in> S" and sub: "set ys \<subseteq> S" using Cons.prems(1) by auto
  have tail: "\<forall>z\<in>set ys. cmp y z \<le> 0" and sorted_tl: "sorted_wrt (\<lambda>a b. cmp a b \<le> 0) ys"
    using Cons.prems(2) by auto
  show ?case
  proof (cases "cmp x y \<le> 0")
    case True
    have "cmp x z \<le> 0" if "z \<in> set ys" for z
    proof -
      have "z \<in> S" using that sub by blast
      moreover have "cmp y z \<le> 0" using tail that by blast
      ultimately show ?thesis
        using consistent_onD2 [OF con x y] True by blast
    qed
    with True Cons.prems(2) show ?thesis by auto
  next
    case False
    then have "0 < cmp x y" by simp
    then have "cmp y x \<le> 0"
      using consistent_onD1 [OF con x y] by linarith
    moreover have "sorted_wrt (\<lambda>a b. cmp a b \<le> 0) (insert_by cmp x ys)"
      using Cons.IH [OF sub sorted_tl] .
    ultimately show ?thesis
      using False tail by (simp add: set_insert_by)
  qed
qed

lemma sorted_sort_by:
  assumes "consistent_on cmp (set xs)"
  shows "sorted_wrt (\<lambda>a b. cmp a b \<le> 0) (sort_by cmp xs)"
proof -
  have "sorted_wrt (\<lambda>a b. cmp a b \<le> 0) (sort_by cmp zs)" if "set zs \<subseteq> set xs" for zs
    using that
  proof (induction zs)
    case Nil
    show ?case by (simp add: sort_by_def)
  next
    case (Cons z zs)
    have "sorted_wrt (\<lambda>a b. cmp a b \<le> 0) (insert_by cmp z (sort_by cmp zs))"
    proof (rule sorted_insert_by [OF assms])
      show "z \<in> set xs" using Cons.prems by simp
      show "set (sort_by cmp zs) \<subseteq> set xs" using Cons.prems by (simp add: set_sort_by)
      show "sorted_wrt (\<lambda>a b. cmp a b \<le> 0) (sort_by cmp zs)" using Cons by simp
    qed
    then show ?case by (simp add: sort_by_def)
  qed
  then show ?thesis by simp
qed

lemma filter_insert_by:
  assumes con: "consistent_on cmp S" and a: "a \<in> S" and x: "x \<in> S" and ys: "set ys \<subseteq> S"
  shows "filter (\<lambda>b. cmp a b = 0) (insert_by cmp x ys) = filter (\<lambda>b. cmp a b = 0) (x # ys)"
  using ys
proof (induction ys)
  case Nil
  show ?case by simp
next
  case (Cons y ys)
  have y: "y \<in> S" and sub: "set ys \<subseteq> S" using Cons.prems by auto
  show ?case
  proof (cases "cmp x y \<le> 0")
    case True
    then show ?thesis by simp
  next
    case False
    have not_both: "\<not> (cmp a x = 0 \<and> cmp a y = 0)"
    proof
      assume both: "cmp a x = 0 \<and> cmp a y = 0"
      then have "cmp x a = 0" using consistent_onD1 [OF con a x] by linarith
      then have "cmp x y = 0" using consistent_on_eq [OF con x a y] both by blast
      with False show False by simp
    qed
    have IH: "filter (\<lambda>b. cmp a b = 0) (insert_by cmp x ys) = filter (\<lambda>b. cmp a b = 0) (x # ys)"
      using Cons.IH [OF sub] .
    show ?thesis
    proof (cases "cmp a y = 0")
      case True
      then have "cmp a x \<noteq> 0" using not_both by blast
      then show ?thesis using False True IH by simp
    next
      case ay: False
      then show ?thesis using False IH by simp
    qed
  qed
qed

lemma stable_sort_by:
  assumes con: "consistent_on cmp (set xs)" and a: "a \<in> set xs"
  shows "filter (\<lambda>b. cmp a b = 0) (sort_by cmp xs) = filter (\<lambda>b. cmp a b = 0) xs"
proof -
  have "filter (\<lambda>b. cmp a b = 0) (sort_by cmp zs) = filter (\<lambda>b. cmp a b = 0) zs"
    if "set zs \<subseteq> set xs" for zs
    using that
  proof (induction zs)
    case Nil
    show ?case by (simp add: sort_by_def)
  next
    case (Cons z zs)
    have z: "z \<in> set xs" and sub: "set zs \<subseteq> set xs" using Cons.prems by auto
    have "filter (\<lambda>b. cmp a b = 0) (sort_by cmp (z # zs))
        = filter (\<lambda>b. cmp a b = 0) (insert_by cmp z (sort_by cmp zs))"
      by (simp add: sort_by_def)
    also have "\<dots> = filter (\<lambda>b. cmp a b = 0) (z # sort_by cmp zs)"
      by (rule filter_insert_by [OF con a z]) (simp add: set_sort_by sub)
    also have "\<dots> = filter (\<lambda>b. cmp a b = 0) (z # zs)"
      using Cons.IH [OF sub] by simp
    finally show ?case .
  qed
  then show ?thesis by simp
qed

lemma consistent_on_subset: "consistent_on cmp S \<Longrightarrow> T \<subseteq> S \<Longrightarrow> consistent_on cmp T"
  unfolding consistent_on_def by blast

lemma compareBy_deciding_rule:
  "compareBy sorters a b =
     (case deciding_rule sorters a b of
        None \<Rightarrow> 0
      | Some s \<Rightarrow> if sort_order s = ''asc''
                  then comparison (field a (sort_column s)) (field b (sort_column s))
                  else - comparison (field a (sort_column s)) (field b (sort_column s)))"
  by (induction sorters) (simp_all add: deciding_rule_def Let_def)





lemma comparison_range: "comparison valA valB \<in> {- 1, 0, 1}"
  by (simp add: comparison_def)

lemma compareBy_range: "compareBy sorters a b \<in> {- 1, 0, 1}"
proof (induction sorters)
  case Nil
  show ?case by simp
next
  case (Cons s ss)
  have "comparison (field a (sort_column s)) (field b (sort_column s)) \<in> {- 1, 0, 1}"
    by (rule comparison_range)
  with Cons show ?case by (auto simp: Let_def)
qed

text \<open>
  Claim C2, as stated, at three tickets of which the second has no attachment
  (\<open>attachmentName\<close> is \<open>null\<close>): the comparator finds the second equal to both of the
  others, while the rule puts \<open>''b.pdf''\<close> after \<open>''a.pdf''\<close>. The result is not both
  ordered by the chain and faithful to the ties. (Here the sort leaves the three where
  they are, and the first stays in front of the third.)
\<close>

theorem sort_chain_counterexample:
  "\<not> (chain_sorted [\<lparr>sort_column = ''attachmentName'', sort_order = ''asc''\<rparr>]
         (processTickets
            [[(''id'', JStr ''T1''), (''attachmentName'', JStr ''b.pdf'')],
             [(''id'', JStr ''T2''), (''attachmentName'', JNull)],
             [(''id'', JStr ''T3''), (''attachmentName'', JStr ''a.pdf'')]]
            []
            [\<lparr>sort_column = ''attachmentName'', sort_order = ''asc''\<rparr>])
       \<and> keeps_ties [\<lparr>sort_column = ''attachmentName'', sort_order = ''asc''\<rparr>]
         [[(''id'', JStr ''T1''), (''attachmentName'', JStr ''b.pdf'')],
          [(''id'', JStr ''T2''), (''attachmentName'', JNull)],
          [(''id'', JStr ''T3''), (''attachmentName'', JStr ''a.pdf'')]]
         (processTickets
            [[(''id'', JStr ''T1''), (''attachmentName'', JStr ''b.pdf'')],
             [(''id'', JStr ''T2''), (''attachmentName'', JNull)],
             [(''id'', JStr ''T3''), (''attachmentName'', JStr ''a.pdf'')]]
            []
            [\<lparr>sort_column = ''attachmentName'', sort_order = ''asc''\<rparr>]))"
  by code_simp

text \<open>
  No arrangement of these three tickets meets both halves of the claim, so the
  failure does not depend on the sorting algorithm: keeping the ties of the second
  ticket keeps all three in their input order.
\<close>

lemma sort_chain_no_arrangement:
  assumes "keeps_ties [\<lparr>sort_column = ''attachmentName'', sort_order = ''asc''\<rparr>]
          [[(''id'', JStr ''T1''), (''attachmentName'', JStr ''b.pdf'')],
           [(''id'', JStr ''T2''), (''attachmentName'', JNull)],
           [(''id'', JStr ''T3''), (''attachmentName'', JStr ''a.pdf'')]] ys"
  shows "\<not> chain_sorted [\<lparr>sort_column = ''attachmentName'', sort_order = ''asc''\<rparr>] ys"
proof
  let ?ss = "[\<lparr>sort_column = ''attachmentName'', sort_order = ''asc''\<rparr>]"
  let ?T1 = "[(''id'', JStr ''T1''), (''attachmentName'', JStr ''b.pdf'')]"
  let ?T2 = "[(''id'', JStr ''T2''), (''attachmentName'', JNull)]"
  let ?T3 = "[(''id'', JStr ''T3''), (''attachmentName'', JStr ''a.pdf'')]"
  assume "chain_sorted ?ss ys"
  then have s1: "sorted_wrt (\<lambda>a b. compareBy ?ss a b \<le> 0) (filter (\<lambda>b. compareBy ?ss ?T2 b = 0) ys)"
    unfolding chain_sorted_def by (rule sorted_wrt_filter)
  have e1: "filter (\<lambda>b. compareBy ?ss ?T2 b = 0) ys
               = filter (\<lambda>b. compareBy ?ss ?T2 b = 0) [?T1, ?T2, ?T3]"
    using assms unfolding keeps_ties_def list_all_iff by (simp only: list.set) blast
  have e2: "filter (\<lambda>b. compareBy ?ss ?T2 b = 0) [?T1, ?T2, ?T3] = [?T1, ?T2, ?T3]"
    by code_simp
  have "sorted_wrt (\<lambda>a b. compareBy ?ss a b \<le> 0) [?T1, ?T2, ?T3]"
    using s1 unfolding e1 e2 .
  moreover have "\<not> sorted_wrt (\<lambda>a b. compareBy ?ss a b \<le> 0) [?T1, ?T2, ?T3]"
    by code_simp
  ultimately show False by blast
qed

text \<open>
  Claim C2, amended. Whenever the comparator is a consistent ordering of the filtered
  records, \<open>processTickets\<close> returns them arranged by the tie-break chain: the result
  is a rearrangement of the filtered records in which no record is followed by one
  that the chain puts strictly before it, and the records that tie with a given record
  under all rules keep their original relative order. The chain compares two records
  by the first rule whose comparison is not 0, negated unless that rule's order is
  \<open>'asc'\<close>. Without sort rules the filtered records come back in their original order,
  and the comparator is a consistent ordering when every sort column holds a string in
  every record, or a number in every record (lemma \<open>consistent_on_compareBy\<close>). The
  statement is about the values on which the coercions of the filter and the
  comparisons of the sort are the ones modelled.
\<close>

theorem processTickets_sorts_by_chain:
  assumes "consistent_on (compareBy sorters) (set (processTickets tickets filters []))"
    and "filter_values_modelled tickets filters"
    and "sort_values_modelled tickets sorters"
  shows "mset (processTickets tickets filters sorters) = mset (processTickets tickets filters [])
       \<and> chain_sorted sorters (processTickets tickets filters sorters)
       \<and> keeps_ties sorters (processTickets tickets filters []) (processTickets tickets filters sorters)
       \<and> processTickets tickets filters [] = filter (\<lambda>t. \<forall>f\<in>set filters. matchesFilter t f) tickets
       \<and> (\<forall>a\<in>set tickets. \<forall>b\<in>set tickets. compareBy sorters a b =
            (case deciding_rule sorters a b of
               None \<Rightarrow> 0
             | Some s \<Rightarrow> if sort_order s = ''asc''
                         then comparison (field a (sort_column s)) (field b (sort_column s))
                         else - comparison (field a (sort_column s)) (field b (sort_column s))))"
proof -
  let ?xs = "filter (\<lambda>t. \<forall>f\<in>set filters. matchesFilter t f) tickets"
  have xs: "processTickets tickets filters [] = ?xs"
    by (simp add: processTickets_filter sort_by_no_sorters)
  have ys: "processTickets tickets filters sorters = sort_by (compareBy sorters) ?xs"
    by (rule processTickets_filter)
  have con: "consistent_on (compareBy sorters) (set ?xs)"
    using assms(1) by (simp only: xs)
  have perm: "mset (processTickets tickets filters sorters) = mset (processTickets tickets filters [])"
    by (simp only: xs ys mset_sort_by)
  have sorted: "chain_sorted sorters (processTickets tickets filters sorters)"
    unfolding chain_sorted_def ys by (rule sorted_sort_by [OF con])
  have stable: "keeps_ties sorters (processTickets tickets filters []) (processTickets tickets filters sorters)"
    unfolding keeps_ties_def xs ys list_all_iff
    using stable_sort_by [OF con] by blast
  have chain: "\<forall>a\<in>set tickets. \<forall>b\<in>set tickets. compareBy sorters a b =
            (case deciding_rule sorters a b of
               None \<Rightarrow> 0
             | Some s \<Rightarrow> if sort_order s = ''asc''
                         then comparison (field a (sort_column s)) (field b (sort_column s))
                         else - comparison (field a (sort_column s)) (field b (sort_column s)))"
    by (intro ballI) (rule compareBy_deciding_rule)
  show ?thesis
    by (intro conjI perm sorted stable xs chain)
qed

theorem processTickets_sorts_by_chain_witness:
  "consistent_on
     (compareBy [\<lparr>sort_column = ''subject'', sort_order = ''asc''\<rparr>,
                 \<lparr>sort_column = ''votes'', sort_order = ''desc''\<rparr>])
     (set (processTickets
       [[(''id'', JStr ''T1''), (''subject'', JStr ''Billing''), (''votes'', JNum 2)],
        [(''id'', JStr ''T2''), (''subject'', JStr ''Access''), (''votes'', JStr ''9'')],
        [(''id'', JStr ''T3''), (''subject'', JStr ''Billing''), (''votes'', JNum 10)],
        [(''id'', JStr ''T4''), (''subject'', JStr ''Billing''), (''votes'', JStr ''10'')]]
       [] []))
   \<and> chain_sorted
     [\<lparr>sort_column = ''subject'', sort_order = ''asc''\<rparr>,
      \<lparr>sort_column = ''votes'', sort_order = ''desc''\<rparr>]
     (processTickets
       [[(''id'', JStr ''T1''), (''subject'', JStr ''Billing''), (''votes'', JNum 2)],
        [(''id'', JStr ''T2''), (''subject'', JStr ''Access''), (''votes'', JStr ''9'')],
        [(''id'', JStr ''T3''), (''subject'', JStr ''Billing''), (''votes'', JNum 10)],
        [(''id'', JStr ''T4''), (''subject'', JStr ''Billing''), (''votes'', JStr ''10'')]]
       []
       [\<lparr>sort_column = ''subject'', sort_order = ''asc''\<rparr>,
        \<lparr>sort_column = ''votes'', sort_order = ''desc''\<rparr>])
   \<and> processTickets
       [[(''id'', JStr ''T1''), (''subject'', JStr ''Billing''), (''votes'', JNum 2)],
        [(''id'', JStr ''T2''), (''subject'', JStr ''Access''), (''votes'', JStr ''9'')],
        [(''id'', JStr ''T3''), (''subject'', JStr ''Billing''), (''votes'', JNum 10)],
        [(''id'', JStr ''T4''), (''subject'', JStr ''Billing''), (''votes'', JStr ''10'')]]
       []
       [\<lparr>sort_column = ''subject'', sort_order = ''asc''\<rparr>,
        \<lparr>sort_column = ''votes'', sort_order = ''desc''\<rparr>]
     = [[(''id'', JStr ''T2''), (''subject'', JStr ''Access''), (''votes'', JStr ''9'')],
        [(''id'', JStr ''T3''), (''subject'', JStr ''Billing''), (''votes'', JNum 10)],
        [(''id'', JStr ''T4''), (''subject'', JStr ''Billing''), (''votes'', JStr ''10'')],
        [(''id'', JStr ''T1''), (''subject'', JStr ''Billing''), (''votes'', JNum 2)]]"
proof -
  let ?T = "[[(''id'', JStr ''T1''), (''subject'', JStr ''Billing''), (''votes'', JNum 2)],
        [(''id'', JStr ''T2''), (''subject'', JStr ''Access''), (''votes'', JStr ''9'')],
        [(''id'', JStr ''T3''), (''subject'', JStr ''Billing''), (''votes'', JNum 10)],
        [(''id'', JStr ''T4''), (''subject'', JStr ''Billing''), (''votes'', JStr ''10'')]]"
  let ?S = "[\<lparr>sort_column = ''subject'', sort_order = ''asc''\<rparr>,
      \<lparr>sort_column = ''votes'', sort_order = ''desc''\<rparr>]"
  have h: "consistent_on (compareBy ?S) (set (processTickets ?T [] []))"
    by code_simp
  have m1: "filter_values_modelled ?T []"
    by (simp add: filter_values_modelled_def)
  have m2: "sort_values_modelled ?T ?S"
    by code_simp
  have v: "processTickets ?T [] ?S
     = [[(''id'', JStr ''T2''), (''subject'', JStr ''Access''), (''votes'', JStr ''9'')],
        [(''id'', JStr ''T3''), (''subject'', JStr ''Billing''), (''votes'', JNum 10)],
        [(''id'', JStr ''T4''), (''subject'', JStr ''Billing''), (''votes'', JStr ''10'')],
        [(''id'', JStr ''T1''), (''subject'', JStr ''Billing''), (''votes'', JNum 2)]]"
    by code_simp
  have c: "chain_sorted ?S (processTickets ?T [] ?S)"
    using processTickets_sorts_by_chain [OF h m1 m2] by (elim conjE)
  show ?thesis
    by (intro conjI h c v)
qed

text \<open>The decimal rendering of an integer converts back to the integer.\<close>

lemma digit_char_code: "d < 10 \<Longrightarrow> (of_char (digit_char d) :: nat) = 48 + d"
proof -
  assume "d < 10"
  then have "d \<in> {0, 1, 2, 3, 4, 5, 6, 7, 8, 9}" by auto
  then show ?thesis
    by (auto simp: digit_char_def)
qed


lemma not_ws_digit_char: "d < 10 \<Longrightarrow> \<not> is_ws (digit_char d)"
  by (simp add: is_ws_def digit_char_code)














lemma take_min_length: "take (min a (length ys)) ys = take a ys"
  by (cases "a \<le> length ys") (simp_all add: min_def)

lemma slice_page:
  assumes "0 \<le> start" "0 \<le> n"
  shows "slice xs start (start + n) = take (nat n) (drop (nat start) xs)"
proof (cases "start < int (length xs)")
  case True
  let ?ys = "drop (nat start) xs"
  have len: "int (length ?ys) = int (length xs) - start"
    using True assms(1) by simp
  have k: "min start (int (length xs)) = start" using True by simp
  have "min (start + n) (int (length xs)) - start = min n (int (length ?ys))"
    using len by (simp add: min_def)
  then have "nat (min (start + n) (int (length xs)) - start) = min (nat n) (length ?ys)"
    using assms(2) by (simp add: min_def)
  then have "slice xs start (start + n) = take (min (nat n) (length ?ys)) ?ys"
    using assms k by (simp add: slice_def Let_def)
  then show ?thesis by (simp only: take_min_length)
next
  case False
  then show ?thesis
    using assms by (simp add: slice_def Let_def min_def)
qed

lemma processData_filter:
  "processData rows fs ss = sort_by (compareBy ss) (filter (\<lambda>t. \<forall>f\<in>set fs. matchesFilter t f) rows)"
  by (cases fs) (simp_all add: processData_def list_all_iff)

lemma processData_processTickets: "processData rows fs ss = processTickets rows fs ss"
  by (simp only: processData_filter processTickets_filter)

lemma length_page:
  assumes "0 \<le> start" "1 \<le> n"
  shows "int (length (take (nat n) (drop (nat start) xs))) = max 0 (min n (int (length xs) - start))"
  using assms by (simp add: min_def max_def) linarith

text \<open>
  Claim C4, as stated, at the local data provider with pagination switched off (the
  default of the configuration): for page 1 and page size 2 over three records the
  provider returns all three records, where the claim asks for \<open>min 2 (3 - 0) = 2\<close>.
\<close>

theorem fetchData_unpaginated_counterexample:
  "int (length (displayedData
      (fetchData
         \<lparr>s_data = [[(''id'', JStr ''T1'')], [(''id'', JStr ''T2'')], [(''id'', JStr ''T3'')]],
          s_dataSource = None, s_serverSide = False, s_filters = [], s_sorters = [],
          s_pagination_enabled = False, s_pageSize = 2\<rparr>
         ODataFailure
         \<lparr>displayedData = [], t_totalCount = 0, t_totalPages = 1, t_currentPage = 1\<rparr>))) = 3
   \<and> max 0 (min 2 (3 - (1 - 1) * 2)) = (2::int)"
  by (simp add: fetchData_def processData_filter sort_by_no_sorters)

text \<open>
  Claim C4, amended. For the local data provider (\<open>fetchData\<close> with \<open>serverSide\<close> off),
  a request with page at least 1 and page size at least 1 sets \<open>totalCount\<close> to the
  number of records that pass the filters. With pagination enabled it shows the slice of
  the filtered and sorted collection that starts at \<open>(page - 1) * pageSize\<close>, the number
  of rows shown is \<open>min pageSize (totalCount - (page - 1) * pageSize)\<close>, or 0 when that is
  negative, and \<open>totalPages\<close> is \<open>ceil (totalCount / pageSize)\<close>. With pagination
  disabled it shows the whole filtered and sorted collection and \<open>totalPages\<close> is 1.
\<close>

theorem fetchData_local_page:
  assumes "\<not> s_serverSide settings"
    and "1 \<le> t_currentPage state" and "1 \<le> s_pageSize settings"
  shows "t_totalCount (fetchData settings response state)
           = int (length (filter (\<lambda>t. \<forall>f\<in>set (s_filters settings). matchesFilter t f) (s_data settings)))
       \<and> (s_pagination_enabled settings \<longrightarrow>
            displayedData (fetchData settings response state)
              = take (nat (s_pageSize settings))
                  (drop (nat ((t_currentPage state - 1) * s_pageSize settings))
                     (processData (s_data settings) (s_filters settings) (s_sorters settings)))
          \<and> int (length (displayedData (fetchData settings response state)))
              = max 0 (min (s_pageSize settings)
                           (t_totalCount (fetchData settings response state)
                              - (t_currentPage state - 1) * s_pageSize settings))
          \<and> t_totalPages (fetchData settings response state)
              = ceil_div (t_totalCount (fetchData settings response state)) (s_pageSize settings))
       \<and> (\<not> s_pagination_enabled settings \<longrightarrow>
            displayedData (fetchData settings response state)
              = processData (s_data settings) (s_filters settings) (s_sorters settings)
          \<and> t_totalPages (fetchData settings response state) = 1)"
proof -
  let ?full = "processData (s_data settings) (s_filters settings) (s_sorters settings)"
  let ?start = "(t_currentPage state - 1) * s_pageSize settings"
  have start: "0 \<le> ?start" using assms(2,3) by simp
  have size: "0 \<le> s_pageSize settings" using assms(3) by simp
  have sl: "slice ?full ?start (?start + s_pageSize settings)
           = take (nat (s_pageSize settings)) (drop (nat ?start) ?full)"
    by (rule slice_page [OF start size])
  have count: "t_totalCount (fetchData settings response state) = int (length ?full)"
    using assms(1) by (simp add: fetchData_def Let_def)
  have filtered: "int (length ?full)
           = int (length (filter (\<lambda>t. \<forall>f\<in>set (s_filters settings). matchesFilter t f) (s_data settings)))"
    by (simp only: processData_filter length_sort_by)
  have on: "displayedData (fetchData settings response state)
              = take (nat (s_pageSize settings)) (drop (nat ?start) ?full)
          \<and> int (length (displayedData (fetchData settings response state)))
              = max 0 (min (s_pageSize settings)
                           (t_totalCount (fetchData settings response state) - ?start))
          \<and> t_totalPages (fetchData settings response state)
              = ceil_div (t_totalCount (fetchData settings response state)) (s_pageSize settings)"
    if enabled: "s_pagination_enabled settings"
  proof -
    have shown: "displayedData (fetchData settings response state)
           = take (nat (s_pageSize settings)) (drop (nat ?start) ?full)"
      using assms(1) enabled sl by (simp add: fetchData_def Let_def)
    have pages: "t_totalPages (fetchData settings response state)
           = ceil_div (t_totalCount (fetchData settings response state)) (s_pageSize settings)"
      using assms(1) enabled by (simp add: fetchData_def Let_def)
    have len: "int (length (displayedData (fetchData settings response state)))
           = max 0 (min (s_pageSize settings) (int (length ?full) - ?start))"
      unfolding shown by (rule length_page [OF start assms(3)])
    show ?thesis
      using shown pages len count by simp
  qed
  have off: "displayedData (fetchData settings response state) = ?full
          \<and> t_totalPages (fetchData settings response state) = 1"
    if "\<not> s_pagination_enabled settings"
    using assms(1) that by (simp add: fetchData_def Let_def)
  have total: "t_totalCount (fetchData settings response state)
           = int (length (filter (\<lambda>t. \<forall>f\<in>set (s_filters settings). matchesFilter t f) (s_data settings)))"
    by (simp only: count filtered)
  from on have paged: "s_pagination_enabled settings \<longrightarrow>
            displayedData (fetchData settings response state)
              = take (nat (s_pageSize settings)) (drop (nat ?start) ?full)
          \<and> int (length (displayedData (fetchData settings response state)))
              = max 0 (min (s_pageSize settings)
                           (t_totalCount (fetchData settings response state) - ?start))
          \<and> t_totalPages (fetchData settings response state)
              = ceil_div (t_totalCount (fetchData settings response state)) (s_pageSize settings)"
    by (rule impI)
  from off have whole: "\<not> s_pagination_enabled settings \<longrightarrow>
            displayedData (fetchData settings response state) = ?full
          \<and> t_totalPages (fetchData settings response state) = 1"
    by (rule impI)
  from total paged whole show ?thesis
    by (rule conjI [OF _ conjI])
qed

theorem fetchData_local_page_witness:
  "fetchData
     \<lparr>s_data = [[(''id'', JStr ''T1''), (''subject'', JStr ''Login bug'')],
                [(''id'', JStr ''T2''), (''subject'', JStr ''Billing'')],
                [(''id'', JStr ''T3''), (''subject'', JStr ''Bug in export'')],
                [(''id'', JStr ''T4''), (''subject'', JStr ''Access'')],
                [(''id'', JStr ''T5''), (''subject'', JStr ''Debug log'')]],
      s_dataSource = None, s_serverSide = False,
      s_filters = [\<lparr>column = ''subject'', relation = ''contains'', fvalue = JStr ''bug''\<rparr>],
      s_sorters = [], s_pagination_enabled = True, s_pageSize = 2\<rparr>
     ODataFailure
     \<lparr>displayedData = [], t_totalCount = 0, t_totalPages = 1, t_currentPage = 2\<rparr>
   = \<lparr>displayedData = [[(''id'', JStr ''T5''), (''subject'', JStr ''Debug log'')]],
      t_totalCount = 3, t_totalPages = 2, t_currentPage = 2\<rparr>"
proof -
  let ?cfg = "\<lparr>s_data = [[(''id'', JStr ''T1''), (''subject'', JStr ''Login bug'')],
                [(''id'', JStr ''T2''), (''subject'', JStr ''Billing'')],
                [(''id'', JStr ''T3''), (''subject'', JStr ''Bug in export'')],
                [(''id'', JStr ''T4''), (''subject'', JStr ''Access'')],
                [(''id'', JStr ''T5''), (''subject'', JStr ''Debug log'')]],
      s_dataSource = None, s_serverSide = False,
      s_filters = [\<lparr>column = ''subject'', relation = ''contains'', fvalue = JStr ''bug''\<rparr>],
      s_sorters = [], s_pagination_enabled = True, s_pageSize = 2\<rparr>"
  let ?st = "\<lparr>displayedData = [], t_totalCount = 0, t_totalPages = 1, t_currentPage = 2\<rparr>"
  have h1: "\<not> s_serverSide ?cfg" by simp
  have h2: "s_pagination_enabled ?cfg" by simp
  have h3: "1 \<le> t_currentPage ?st" by simp
  have h4: "1 \<le> s_pageSize ?cfg" by simp
  have full: "processData
       [[(''id'', JStr ''T1''), (''subject'', JStr ''Login bug'')],
        [(''id'', JStr ''T2''), (''subject'', JStr ''Billing'')],
        [(''id'', JStr ''T3''), (''subject'', JStr ''Bug in export'')],
        [(''id'', JStr ''T4''), (''subject'', JStr ''Access'')],
        [(''id'', JStr ''T5''), (''subject'', JStr ''Debug log'')]]
       [\<lparr>column = ''subject'', relation = ''contains'', fvalue = JStr ''bug''\<rparr>] []
     = [[(''id'', JStr ''T1''), (''subject'', JStr ''Login bug'')],
        [(''id'', JStr ''T3''), (''subject'', JStr ''Bug in export'')],
        [(''id'', JStr ''T5''), (''subject'', JStr ''Debug log'')]]"
    by code_simp
  note page = fetchData_local_page [OF h1 h3 h4, of ODataFailure]
  have shown: "displayedData (fetchData ?cfg ODataFailure ?st)
      = [[(''id'', JStr ''T5''), (''subject'', JStr ''Debug log'')]]"
    using page h2 by (simp add: full)
  have count: "t_totalCount (fetchData ?cfg ODataFailure ?st) = 3"
    by (simp add: fetchData_def Let_def full)
  have pages: "t_totalPages (fetchData ?cfg ODataFailure ?st) = 2"
    using page h2 unfolding count by (simp add: ceil_div_def)
  have cur: "t_currentPage (fetchData ?cfg ODataFailure ?st) = 2"
    by (simp add: fetchData_def Let_def)
  show ?thesis
    using shown count pages cur by (cases "fetchData ?cfg ODataFailure ?st") simp
qed

lemma fetchServerData_returns: "\<exists>state'. fetchServerData settings state = Inr state'"
  by (simp add: fetchServerData_def try_catch_def Let_def split: sum.splits page_result.splits)

lemma fetchServerData_failure:
  assumes "\<forall>r. dataSource settings
             \<lparr>page = currentPage state, rq_pageSize = pageSize settings,
              rq_sorters = state_sorters state, rq_filters = state_filters state\<rparr> \<noteq> Resolves r"
  shows "fetchServerData settings state = Inr (state\<lparr>data := [], totalCount := 0\<rparr>)"
proof -
  let ?o = "dataSource settings
             \<lparr>page = currentPage state, rq_pageSize = pageSize settings,
              rq_sorters = state_sorters state, rq_filters = state_filters state\<rparr>"
  have "\<exists>e. await_dataSource ?o = Inl e"
    using assms by (cases ?o) (simp_all add: await_dataSource_def)
  then show ?thesis
    by (auto simp: fetchServerData_def try_catch_def)
qed

lemma fetchServerData_success_invariant:
  assumes "dataSource settings
             \<lparr>page = currentPage state, rq_pageSize = pageSize settings,
              rq_sorters = state_sorters state, rq_filters = state_filters state\<rparr> = Resolves r"
    and "fetchServerData settings state = Inr state'"
  shows "grid_invariant settings state'"
  using assms
  by (cases r)
     (auto simp: fetchServerData_def try_catch_def await_dataSource_def Let_def grid_invariant_def)

text \<open>
  Claim C5, at a fetch that fails after one that succeeded. The first fetch brings 20
  records in pages of 8, so that \<open>totalPages\<close> is 3; the data source then rejects, the
  \<open>catch\<close> block empties \<open>data\<close> and sets \<open>totalCount\<close> to 0, and \<open>totalPages\<close> stays 3
  where the invariant asks for \<open>ceil(0 / 8) = 0\<close>. No exception leaves the function.
\<close>

theorem fetch_failure_keeps_totalPages:
  "fetchServerData
     \<lparr>dataSource = (\<lambda>request. Resolves (PageResult (Some [[(''id'', JStr ''T1'')]]) (Some 20))),
      pagination_enabled = True, pageSize = 8\<rparr>
     initial_state
   = Inr \<lparr>data = [[(''id'', JStr ''T1'')]], totalCount = 20, totalPages = 3, currentPage = 1,
          state_filters = [], state_sorters = [], selectedRows = []\<rparr>
   \<and> fetchServerData
     \<lparr>dataSource = (\<lambda>request. Rejects), pagination_enabled = True, pageSize = 8\<rparr>
     \<lparr>data = [[(''id'', JStr ''T1'')]], totalCount = 20, totalPages = 3, currentPage = 1,
      state_filters = [], state_sorters = [], selectedRows = []\<rparr>
   = Inr \<lparr>data = [], totalCount = 0, totalPages = 3, currentPage = 1,
          state_filters = [], state_sorters = [], selectedRows = []\<rparr>
   \<and> ceil_div 0 8 = 0
   \<and> \<not> grid_invariant
        \<lparr>dataSource = (\<lambda>request. Rejects), pagination_enabled = True, pageSize = 8\<rparr>
        \<lparr>data = [], totalCount = 0, totalPages = 3, currentPage = 1,
         state_filters = [], state_sorters = [], selectedRows = []\<rparr>"
  by (simp add: fetchServerData_def try_catch_def await_dataSource_def initial_state_def
      ceil_div_def grid_invariant_def)

lemma getState_selection_isolated:
  assumes "data_ref state < length h" "filters_ref state < length h"
    and "sorters_ref state < length h" "selectedRows_ref state < length h"
    and "getState h state = (snapshot, h')"
  shows "view h' snapshot = view h state"
    and "view (h'[selectedRows_ref snapshot := anything]) state = view h state"
  using assms by (auto simp: getState_def view_def nth_append)

lemma getState_arrays_shared:
  assumes "getState h state = (snapshot, h')"
  shows "data_ref snapshot = data_ref state"
    and "filters_ref snapshot = filters_ref state"
    and "sorters_ref snapshot = sorters_ref state"
  using assms by (auto simp: getState_def)

lemma getState_array_push_reaches_engine:
  assumes "getState h state = (snapshot, h')"
    and "filters_ref state < length h"
    and "h ! filters_ref state = ArrFilters fs"
  shows "state_filters (view h state) = fs"
    and "state_filters (view (push_filter h' (filters_ref snapshot) f) state) = fs @ [f]"
  using assms by (auto simp: getState_def view_def push_filter_def nth_append)

text \<open>
  Claim C6, at an engine whose committed filter list holds one rule. The caller takes
  a snapshot and calls \<open>push\<close> on the snapshot's \<open>filters\<close>, \<open>sorters\<close> and \<open>data\<close>:
  the engine's own state, read before and after, has changed in all three, because the
  snapshot holds the addresses of the engine's arrays. Adding a key to the snapshot's
  \<open>selectedRows\<close> leaves the engine's selection as it was.
\<close>

theorem getState_shares_arrays:
  "getState
     [ArrTickets [[(''id'', JStr ''T1'')]],
      ArrFilters [\<lparr>gf_column = ''subject'', operator = ''contains'', gf_value = ''bug''\<rparr>],
      ArrSorters [], SetKeys [JStr ''T1'']]
     \<lparr>data_ref = 0, o_totalCount = 1, o_totalPages = 1, o_currentPage = 1,
      filters_ref = 1, sorters_ref = 2, selectedRows_ref = 3\<rparr>
   = (\<lparr>data_ref = 0, o_totalCount = 1, o_totalPages = 1, o_currentPage = 1,
        filters_ref = 1, sorters_ref = 2, selectedRows_ref = 4\<rparr>,
      [ArrTickets [[(''id'', JStr ''T1'')]],
       ArrFilters [\<lparr>gf_column = ''subject'', operator = ''contains'', gf_value = ''bug''\<rparr>],
       ArrSorters [], SetKeys [JStr ''T1''], SetKeys [JStr ''T1'']])
   \<and> state_filters
       (view
          (push_filter
             [ArrTickets [[(''id'', JStr ''T1'')]],
              ArrFilters [\<lparr>gf_column = ''subject'', operator = ''contains'', gf_value = ''bug''\<rparr>],
              ArrSorters [], SetKeys [JStr ''T1''], SetKeys [JStr ''T1'']]
             1 \<lparr>gf_column = ''email'', operator = ''eq'', gf_value = ''x''\<rparr>)
          \<lparr>data_ref = 0, o_totalCount = 1, o_totalPages = 1, o_currentPage = 1,
           filters_ref = 1, sorters_ref = 2, selectedRows_ref = 3\<rparr>)
     = [\<lparr>gf_column = ''subject'', operator = ''contains'', gf_value = ''bug''\<rparr>,
        \<lparr>gf_column = ''email'', operator = ''eq'', gf_value = ''x''\<rparr>]
   \<and> state_sorters
       (view
          (push_sorter
             [ArrTickets [[(''id'', JStr ''T1'')]],
              ArrFilters [\<lparr>gf_column = ''subject'', operator = ''contains'', gf_value = ''bug''\<rparr>],
              ArrSorters [], SetKeys [JStr ''T1''], SetKeys [JStr ''T1'']]
             2 \<lparr>sort_column = ''id'', sort_order = ''asc''\<rparr>)
          \<lparr>data_ref = 0, o_totalCount = 1, o_totalPages = 1, o_currentPage = 1,
           filters_ref = 1, sorters_ref = 2, selectedRows_ref = 3\<rparr>)
     = [\<lparr>sort_column = ''id'', sort_order = ''asc''\<rparr>]
   \<and> data
       (view
          (push_ticket
             [ArrTickets [[(''id'', JStr ''T1'')]],
              ArrFilters [\<lparr>gf_column = ''subject'', operator = ''contains'', gf_value = ''bug''\<rparr>],
              ArrSorters [], SetKeys [JStr ''T1''], SetKeys [JStr ''T1'']]
             0 [(''id'', JStr ''T9'')])
          \<lparr>data_ref = 0, o_totalCount = 1, o_totalPages = 1, o_currentPage = 1,
           filters_ref = 1, sorters_ref = 2, selectedRows_ref = 3\<rparr>)
     = [[(''id'', JStr ''T1'')], [(''id'', JStr ''T9'')]]
   \<and> selectedRows
       (view
          (set_add
             [ArrTickets [[(''id'', JStr ''T1'')]],
              ArrFilters [\<lparr>gf_column = ''subject'', operator = ''contains'', gf_value = ''bug''\<rparr>],
              ArrSorters [], SetKeys [JStr ''T1''], SetKeys [JStr ''T1'']]
             4 (JStr ''T2''))
          \<lparr>data_ref = 0, o_totalCount = 1, o_totalPages = 1, o_currentPage = 1,
           filters_ref = 1, sorters_ref = 2, selectedRows_ref = 3\<rparr>)
     = [JStr ''T1'']"
  by (simp add: getState_def view_def push_filter_def push_sorter_def push_ticket_def set_add_def)




lemma refresh_rejects_when_rendering_raises:
  "fetchServerData settings state = Inr state' \<Longrightarrow> update r state' = Inl e
     \<Longrightarrow> refresh settings r state = (state', Inl e)"
  by (simp add: refresh_def)


lemma decryptAES_returns: "\<exists>text. decryptAES rt ciphertext = Inr text"
  by (simp add: decryptAES_def try_catch_def split: sum.splits)

lemma decryptAES_passes_text:
  "aes_decrypt_utf8 rt ciphertext CIPHER_KEY = Inr text \<Longrightarrow> text \<noteq> []
     \<Longrightarrow> decryptAES rt ciphertext = Inr text"
  by (simp add: decryptAES_def try_catch_def)

text \<open>
  Claim C9. \<open>decryptAES\<close> always returns a string and never raises; when the library
  raises (the bytes are not valid UTF-8, the payload is malformed) or yields the empty
  string, the string returned is the input, unchanged.
\<close>

theorem decryptAES_fails_open:
  assumes "(\<exists>e. aes_decrypt_utf8 rt garbage CIPHER_KEY = Inl e)
           \<or> aes_decrypt_utf8 rt garbage CIPHER_KEY = Inr []"
  shows "decryptAES rt garbage = Inr garbage \<and> (\<forall>ciphertext. \<exists>text. decryptAES rt ciphertext = Inr text)"
proof -
  have "decryptAES rt garbage = Inr garbage"
    using assms by (auto simp: decryptAES_def try_catch_def)
  moreover have "\<forall>ciphertext. \<exists>text. decryptAES rt ciphertext = Inr text"
    by (simp add: decryptAES_returns)
  ultimately show ?thesis by simp
qed

theorem decryptAES_fails_open_witness:
  "decryptAES demo_runtime ''not a ciphertext'' = Inr ''not a ciphertext''"
proof -
  have h: "(\<exists>e. aes_decrypt_utf8 demo_runtime ''not a ciphertext'' CIPHER_KEY = Inl e)
           \<or> aes_decrypt_utf8 demo_runtime ''not a ciphertext'' CIPHER_KEY = Inr []"
    by (simp add: demo_runtime_def)
  from decryptAES_fails_open [OF h] show ?thesis by simp
qed

lemma encryptAES_returns: "\<exists>ciphertext. encryptAES rt salt text = Inr ciphertext"
  by (simp add: encryptAES_def try_catch_def split: sum.splits)

lemma find_head: "P x \<Longrightarrow> find P (x # xs) = Some x"
  by simp

lemma getItem_written: "getItem (written storage k v) k = Some v"
  by (simp add: getItem_def written_def)

lemma persistent_round_trip:
  assumes "round_trips rt salt storage storageKey r ciphertext"
  shows "saveTicket rt salt r storage storageKey = Inr (written storage storageKey ciphertext)"
    and "getTicket rt (written storage storageKey ciphertext) storageKey (field r ''id'') = Inr (Some r)"
    and "\<exists>old. getTickets rt storage storageKey = ParsedArray old
           \<and> getTickets rt (written storage storageKey ciphertext) storageKey = ParsedArray (r # old)"
proof -
  from assms obtain old where old: "getTickets rt storage storageKey = ParsedArray old"
    and enc: "encryptAES rt salt (json_stringify rt (r # old)) = Inr ciphertext"
    and nonempty: "ciphertext \<noteq> []"
    and quota: "within_quota storage (items (written storage storageKey ciphertext))"
    and dec: "decryptAES rt ciphertext = Inr (json_stringify rt (r # old))"
    and json: "json_parse rt (json_stringify rt (r # old)) = Inr (ParsedArray (r # old))"
    unfolding round_trips_def by blast
  show save: "saveTicket rt salt r storage storageKey = Inr (written storage storageKey ciphertext)"
    using old enc quota by (simp add: saveTicket_def saveToStorage_def setItem_def)
  have after: "getTickets rt (written storage storageKey ciphertext) storageKey = ParsedArray (r # old)"
    using nonempty dec json by (simp add: getTickets_def getItem_written try_catch_def)
  then show "getTicket rt (written storage storageKey ciphertext) storageKey (field r ''id'') = Inr (Some r)"
    by (simp add: getTicket_def)
  from old after
  show "\<exists>old. getTickets rt storage storageKey = ParsedArray old
           \<and> getTickets rt (written storage storageKey ciphertext) storageKey = ParsedArray (r # old)"
    by blast
qed

lemma round_trips_from_library:
  assumes "getTickets rt storage storageKey = ParsedArray old"
    and "json_stringify rt (r # old) \<noteq> []"
    and "aes_encrypt rt (json_stringify rt (r # old)) CIPHER_KEY salt = Inr ciphertext"
    and "ciphertext \<noteq> []"
    and "within_quota storage (items (written storage storageKey ciphertext))"
    and "aes_decrypt_utf8 rt ciphertext CIPHER_KEY = Inr (json_stringify rt (r # old))"
    and "json_parse rt (json_stringify rt (r # old)) = Inr (ParsedArray (r # old))"
  shows "round_trips rt salt storage storageKey r ciphertext"
proof -
  have "encryptAES rt salt (json_stringify rt (r # old)) = Inr ciphertext"
    using assms(3) by (simp add: encryptAES_def try_catch_def)
  moreover have "decryptAES rt ciphertext = Inr (json_stringify rt (r # old))"
    using assms(6) assms(2) by (rule decryptAES_passes_text)
  ultimately show ?thesis
    unfolding round_trips_def using assms(1) assms(4) assms(5) assms(7) by blast
qed

lemma saveTicket_on_non_array:
  "getTickets rt storage storageKey = ParsedOther \<Longrightarrow> saveTicket rt salt r storage storageKey = Inl TypeError"
  by (simp add: saveTicket_def)

lemma saveTicket_over_quota:
  assumes "getTickets rt storage storageKey = ParsedArray old"
    and "encryptAES rt salt (json_stringify rt (r # old)) = Inr ciphertext"
    and "\<not> within_quota storage (items (written storage storageKey ciphertext))"
  shows "saveTicket rt salt r storage storageKey = Inl QuotaExceededError"
  using assms by (simp add: saveTicket_def saveToStorage_def setItem_def)

text \<open>
  Claim C8, as stated, at three saves into the session store of a browser. A record
  with a member whose value is \<open>undefined\<close> comes back without the member, because the
  text written for the collection does not have it. Where the stored entry is the text
  \<open>5\<close>, which is not a ciphertext and parses to a number, the save raises a TypeError
  and nothing is saved. Where the browser refuses the write, the save raises a
  QuotaExceededError.
\<close>

theorem save_then_get_counterexample:
  "Session_save_then_get demo_runtime ''salt''
     [(''id'', JStr ''T1''), (''note'', JUndefined)]
     \<lparr>sessionStorage = \<lparr>items = [], within_quota = (\<lambda>entries. True)\<rparr>,
      localStorage = \<lparr>items = [], within_quota = (\<lambda>entries. True)\<rparr>\<rparr>
   = Inr (Some [(''id'', JStr ''T1'')])
   \<and> Session_save_then_get demo_runtime ''salt''
     [(''id'', JStr ''T1''), (''note'', JUndefined)]
     \<lparr>sessionStorage = \<lparr>items = [], within_quota = (\<lambda>entries. True)\<rparr>,
      localStorage = \<lparr>items = [], within_quota = (\<lambda>entries. True)\<rparr>\<rparr>
   \<noteq> Inr (Some [(''id'', JStr ''T1''), (''note'', JUndefined)])
   \<and> Session_save_then_get demo_runtime ''salt''
     [(''id'', JStr ''T1''), (''subject'', JStr ''Login bug'')]
     \<lparr>sessionStorage = \<lparr>items = [(''tatua_tickets_session_aes'', ''5'')],
                        within_quota = (\<lambda>entries. True)\<rparr>,
      localStorage = \<lparr>items = [], within_quota = (\<lambda>entries. True)\<rparr>\<rparr>
   = Inl TypeError
   \<and> Session_save_then_get demo_runtime ''salt''
     [(''id'', JStr ''T1''), (''subject'', JStr ''Login bug'')]
     \<lparr>sessionStorage = \<lparr>items = [], within_quota = (\<lambda>entries. False)\<rparr>,
      localStorage = \<lparr>items = [], within_quota = (\<lambda>entries. True)\<rparr>\<rparr>
   = Inl QuotaExceededError"
  by code_simp

text \<open>
  Claim C8, amended. Saving a ticket and then asking for its id returns the ticket, and
  the ticket is the first element of the stored collection, for each of the three
  strategies. \<open>MemoryStorage\<close> prepends to its array. \<open>SessionStorage\<close> and
  \<open>LocalStorage\<close> read the whole collection, prepend, serialise and encrypt the whole
  collection and write it under their key; reading it back returns the ticket provided
  the id is a string, a safe integer, a boolean, \<open>null\<close> or \<open>undefined\<close>, the entry read
  before the save is absent, unreadable or an array of records, the browser accepts the
  write, and the environment round-trips the text written (CryptoJS decrypts what it
  encrypted and \<open>JSON.parse\<close> inverts \<open>JSON.stringify\<close> on the collection). The
  conditions are those of the store that is written; \<open>MemoryStorage\<close> has none.
\<close>

theorem save_then_get_returns_ticket:
  "Memory_save_then_get r tickets = Some r
   \<and> Memory_getTickets (Memory_saveTicket r tickets) = r # Memory_getTickets tickets
   \<and> (round_trips rt salt (sessionStorage b) ''tatua_tickets_session_aes'' r cs
        \<and> plain_id (field r ''id'')
      \<longrightarrow> Session_save_then_get rt salt r b = Inr (Some r)
        \<and> Session_saveTicket rt salt r b
            = Inr (b\<lparr>sessionStorage := written (sessionStorage b) ''tatua_tickets_session_aes'' cs\<rparr>)
        \<and> (\<exists>old. Session_getTickets rt b = ParsedArray old
              \<and> Session_getTickets rt (b\<lparr>sessionStorage := written (sessionStorage b) ''tatua_tickets_session_aes'' cs\<rparr>)
                  = ParsedArray (r # old)))
   \<and> (round_trips rt salt (localStorage b) ''tatua_tickets_local_aes'' r cl
        \<and> plain_id (field r ''id'')
      \<longrightarrow> Local_save_then_get rt salt r b = Inr (Some r)
        \<and> Local_saveTicket rt salt r b
            = Inr (b\<lparr>localStorage := written (localStorage b) ''tatua_tickets_local_aes'' cl\<rparr>)
        \<and> (\<exists>old. Local_getTickets rt b = ParsedArray old
              \<and> Local_getTickets rt (b\<lparr>localStorage := written (localStorage b) ''tatua_tickets_local_aes'' cl\<rparr>)
                  = ParsedArray (r # old)))"
proof -
  have m1: "Memory_save_then_get r tickets = Some r"
    by (simp add: Memory_save_then_get_def Memory_getTicket_def Memory_saveTicket_def)
  have m2: "Memory_getTickets (Memory_saveTicket r tickets) = r # Memory_getTickets tickets"
    by (simp add: Memory_getTickets_def Memory_saveTicket_def)
  have session: "Session_save_then_get rt salt r b = Inr (Some r)
        \<and> Session_saveTicket rt salt r b
            = Inr (b\<lparr>sessionStorage := written (sessionStorage b) ''tatua_tickets_session_aes'' cs\<rparr>)
        \<and> (\<exists>old. Session_getTickets rt b = ParsedArray old
              \<and> Session_getTickets rt (b\<lparr>sessionStorage := written (sessionStorage b) ''tatua_tickets_session_aes'' cs\<rparr>)
                  = ParsedArray (r # old))"
    if h: "round_trips rt salt (sessionStorage b) ''tatua_tickets_session_aes'' r cs"
  proof -
    note s = persistent_round_trip [OF h]
    have s1: "Session_saveTicket rt salt r b
           = Inr (b\<lparr>sessionStorage := written (sessionStorage b) ''tatua_tickets_session_aes'' cs\<rparr>)"
      by (simp add: Session_saveTicket_def s(1))
    have s2: "Session_save_then_get rt salt r b = Inr (Some r)"
      by (simp add: Session_save_then_get_def s1 Session_getTicket_def s(2))
    have s3: "\<exists>old. Session_getTickets rt b = ParsedArray old
             \<and> Session_getTickets rt (b\<lparr>sessionStorage := written (sessionStorage b) ''tatua_tickets_session_aes'' cs\<rparr>)
                 = ParsedArray (r # old)"
      using s(3) by (simp add: Session_getTickets_def)
    show ?thesis by (intro conjI s2 s1 s3)
  qed
  have local: "Local_save_then_get rt salt r b = Inr (Some r)
        \<and> Local_saveTicket rt salt r b
            = Inr (b\<lparr>localStorage := written (localStorage b) ''tatua_tickets_local_aes'' cl\<rparr>)
        \<and> (\<exists>old. Local_getTickets rt b = ParsedArray old
              \<and> Local_getTickets rt (b\<lparr>localStorage := written (localStorage b) ''tatua_tickets_local_aes'' cl\<rparr>)
                  = ParsedArray (r # old))"
    if h: "round_trips rt salt (localStorage b) ''tatua_tickets_local_aes'' r cl"
  proof -
    note l = persistent_round_trip [OF h]
    have l1: "Local_saveTicket rt salt r b
           = Inr (b\<lparr>localStorage := written (localStorage b) ''tatua_tickets_local_aes'' cl\<rparr>)"
      by (simp add: Local_saveTicket_def l(1))
    have l2: "Local_save_then_get rt salt r b = Inr (Some r)"
      by (simp add: Local_save_then_get_def l1 Local_getTicket_def l(2))
    have l3: "\<exists>old. Local_getTickets rt b = ParsedArray old
             \<and> Local_getTickets rt (b\<lparr>localStorage := written (localStorage b) ''tatua_tickets_local_aes'' cl\<rparr>)
                 = ParsedArray (r # old)"
      using l(3) by (simp add: Local_getTickets_def)
    show ?thesis by (intro conjI l2 l1 l3)
  qed
  show ?thesis
    using m1 m2 session local by blast
qed

theorem save_then_get_returns_ticket_witness:
  \<open>Session_save_then_get demo_runtime ''salt''
     [(''id'', JStr ''T1''), (''subject'', JStr ''Login bug'')]
     \<lparr>sessionStorage =
        \<lparr>items = [(''tatua_tickets_session_aes'',
                    CHR ''#'' # rev ''[{"id":"T2","subject":"Billing"},{"id":"T3","subject":"Export"}]'')],
         within_quota = (\<lambda>entries. True)\<rparr>,
      localStorage =
        \<lparr>items = [(''tatua_tickets_local_aes'', CHR ''#'' # rev ''[{"id":"T4","votes":7}]'')],
         within_quota = (\<lambda>entries. True)\<rparr>\<rparr>
   = Inr (Some [(''id'', JStr ''T1''), (''subject'', JStr ''Login bug'')])
   \<and> Local_save_then_get demo_runtime ''salt''
     [(''id'', JStr ''T1''), (''subject'', JStr ''Login bug'')]
     \<lparr>sessionStorage =
        \<lparr>items = [(''tatua_tickets_session_aes'',
                    CHR ''#'' # rev ''[{"id":"T2","subject":"Billing"},{"id":"T3","subject":"Export"}]'')],
         within_quota = (\<lambda>entries. True)\<rparr>,
      localStorage =
        \<lparr>items = [(''tatua_tickets_local_aes'', CHR ''#'' # rev ''[{"id":"T4","votes":7}]'')],
         within_quota = (\<lambda>entries. True)\<rparr>\<rparr>
   = Inr (Some [(''id'', JStr ''T1''), (''subject'', JStr ''Login bug'')])
   \<and> Memory_save_then_get [(''id'', JStr ''T1''), (''subject'', JStr ''Login bug'')]
       [[(''id'', JStr ''T2''), (''subject'', JStr ''Billing'')]]
     = Some [(''id'', JStr ''T1''), (''subject'', JStr ''Login bug'')]
   \<and> map_sum id (Session_getTickets demo_runtime)
       (Session_saveTicket demo_runtime ''salt''
          [(''id'', JStr ''T1''), (''subject'', JStr ''Login bug'')]
          \<lparr>sessionStorage =
             \<lparr>items = [(''tatua_tickets_session_aes'',
                         CHR ''#'' # rev ''[{"id":"T2","subject":"Billing"},{"id":"T3","subject":"Export"}]'')],
              within_quota = (\<lambda>entries. True)\<rparr>,
           localStorage =
             \<lparr>items = [(''tatua_tickets_local_aes'', CHR ''#'' # rev ''[{"id":"T4","votes":7}]'')],
              within_quota = (\<lambda>entries. True)\<rparr>\<rparr>)
     = Inr (ParsedArray
         [[(''id'', JStr ''T1''), (''subject'', JStr ''Login bug'')],
          [(''id'', JStr ''T2''), (''subject'', JStr ''Billing'')],
          [(''id'', JStr ''T3''), (''subject'', JStr ''Export'')]])
   \<and> map_sum id (\<lambda>b. Session_getTicket demo_runtime b (JStr ''T3''))
       (Session_saveTicket demo_runtime ''salt''
          [(''id'', JStr ''T1''), (''subject'', JStr ''Login bug'')]
          \<lparr>sessionStorage =
             \<lparr>items = [(''tatua_tickets_session_aes'',
                         CHR ''#'' # rev ''[{"id":"T2","subject":"Billing"},{"id":"T3","subject":"Export"}]'')],
              within_quota = (\<lambda>entries. True)\<rparr>,
           localStorage =
             \<lparr>items = [(''tatua_tickets_local_aes'', CHR ''#'' # rev ''[{"id":"T4","votes":7}]'')],
              within_quota = (\<lambda>entries. True)\<rparr>\<rparr>)
     = Inr (Inr (Some [(''id'', JStr ''T3''), (''subject'', JStr ''Export'')]))\<close>
proof -
  let ?r = "[(''id'', JStr ''T1''), (''subject'', JStr ''Login bug'')]"
  let ?olds = "[[(''id'', JStr ''T2''), (''subject'', JStr ''Billing'')],
                [(''id'', JStr ''T3''), (''subject'', JStr ''Export'')]]"
  let ?oldl = "[[(''id'', JStr ''T4''), (''votes'', JNum 7)]]"
  let ?b = \<open>\<lparr>sessionStorage =
        \<lparr>items = [(''tatua_tickets_session_aes'',
                    CHR ''#'' # rev ''[{"id":"T2","subject":"Billing"},{"id":"T3","subject":"Export"}]'')],
         within_quota = (\<lambda>entries. True)\<rparr>,
      localStorage =
        \<lparr>items = [(''tatua_tickets_local_aes'', CHR ''#'' # rev ''[{"id":"T4","votes":7}]'')],
         within_quota = (\<lambda>entries. True)\<rparr>\<rparr>\<close>
  let ?cs = "CHR ''#'' # rev (JSON_stringify (?r # ?olds))"
  let ?cl = "CHR ''#'' # rev (JSON_stringify (?r # ?oldl))"
  have hs: "round_trips demo_runtime ''salt'' (sessionStorage ?b) ''tatua_tickets_session_aes'' ?r ?cs"
    unfolding round_trips_def
  proof (intro exI [of _ ?olds] conjI)
    show "getTickets demo_runtime (sessionStorage ?b) ''tatua_tickets_session_aes'' = ParsedArray ?olds"
      by code_simp
    show "encryptAES demo_runtime ''salt'' (json_stringify demo_runtime (?r # ?olds)) = Inr ?cs"
      by (simp add: encryptAES_def try_catch_def demo_runtime_def)
    show "?cs \<noteq> []"
      by simp
    show "within_quota (sessionStorage ?b) (items (written (sessionStorage ?b) ''tatua_tickets_session_aes'' ?cs))"
      by simp
    show "decryptAES demo_runtime ?cs = Inr (json_stringify demo_runtime (?r # ?olds))"
      by code_simp
    show "json_parse demo_runtime (json_stringify demo_runtime (?r # ?olds)) = Inr (ParsedArray (?r # ?olds))"
      by code_simp
  qed
  have hl: "round_trips demo_runtime ''salt'' (localStorage ?b) ''tatua_tickets_local_aes'' ?r ?cl"
    unfolding round_trips_def
  proof (intro exI [of _ ?oldl] conjI)
    show "getTickets demo_runtime (localStorage ?b) ''tatua_tickets_local_aes'' = ParsedArray ?oldl"
      by code_simp
    show "encryptAES demo_runtime ''salt'' (json_stringify demo_runtime (?r # ?oldl)) = Inr ?cl"
      by (simp add: encryptAES_def try_catch_def demo_runtime_def)
    show "?cl \<noteq> []"
      by simp
    show "within_quota (localStorage ?b) (items (written (localStorage ?b) ''tatua_tickets_local_aes'' ?cl))"
      by simp
    show "decryptAES demo_runtime ?cl = Inr (json_stringify demo_runtime (?r # ?oldl))"
      by code_simp
    show "json_parse demo_runtime (json_stringify demo_runtime (?r # ?oldl)) = Inr (ParsedArray (?r # ?oldl))"
      by code_simp
  qed
  have hid: "plain_id (field ?r ''id'')"
    by code_simp
  note main = save_then_get_returns_ticket
    [of ?r "[[(''id'', JStr ''T2''), (''subject'', JStr ''Billing'')]]" demo_runtime "''salt''" ?b ?cs ?cl]
  have a: "Session_save_then_get demo_runtime ''salt'' ?r ?b = Inr (Some ?r)"
    by (rule main [THEN conjunct2, THEN conjunct2, THEN conjunct1, THEN mp,
          OF conjI [OF hs hid], THEN conjunct1])
  have b: "Local_save_then_get demo_runtime ''salt'' ?r ?b = Inr (Some ?r)"
    by (rule main [THEN conjunct2, THEN conjunct2, THEN conjunct2, THEN mp,
          OF conjI [OF hl hid], THEN conjunct1])
  from main have c: "Memory_save_then_get ?r [[(''id'', JStr ''T2''), (''subject'', JStr ''Billing'')]] = Some ?r"
    by (elim conjE)
  have d: "map_sum id (Session_getTickets demo_runtime) (Session_saveTicket demo_runtime ''salt'' ?r ?b)
           = Inr (ParsedArray (?r # ?olds))"
    by code_simp
  have e: "map_sum id (\<lambda>b. Session_getTicket demo_runtime b (JStr ''T3''))
             (Session_saveTicket demo_runtime ''salt'' ?r ?b)
           = Inr (Inr (Some [(''id'', JStr ''T3''), (''subject'', JStr ''Export'')]))"
    by code_simp
  show ?thesis
    by (intro conjI a b c d e)
qed

end
